theory Spec2Isabelle
  imports Main "HOL-Library.Word"
begin

unbundle bit_operations_syntax

section \<open>The chain controller of evt (libraries/chain/controller.cpp)\<close>

text \<open>
  A shallow embedding of \<^verbatim>\<open>controller_impl\<close> and of the \<^verbatim>\<open>controller\<close> methods of
  \<^verbatim>\<open>src/libraries/chain/controller.cpp\<close>. The controller's members are the fields of a
  record that every operation takes and returns; a C++ exception is a value; code whose
  behaviour the C++ standard leaves undefined (an empty optional dereferenced, an
  iterator moved out of its vector) has an outcome of its own.
\<close>

subsection \<open>Basic types\<close>

type_synonym block_id_type = nat
type_synonym digest_type = nat
type_synonym transaction_id_type = nat
type_synonym public_key_type = nat
type_synonym signature_type = nat
type_synonym account_name = nat
type_synonym block_num_type = "32 word"

text \<open>
  \<^verbatim>\<open>fc::time_point\<close> counts microseconds in an \<^verbatim>\<open>int64_t\<close>; \<^verbatim>\<open>fc::time_point_sec\<close> counts
  seconds in a \<^verbatim>\<open>uint32_t\<close>. A time built from a \<open>uint32_t\<close> number of seconds is below
  \<open>2^32 * 10^6 < 2^63\<close>, so the sums the controller forms do not overflow and
  \<open>int\<close> is used for \<^verbatim>\<open>time_point\<close>. A block's \<^verbatim>\<open>block_timestamp_type\<close> is identified with
  the \<^verbatim>\<open>time_point\<close> it converts to.
\<close>

type_synonym time_point = int
type_synonym time_point_sec = "32 word"

definition time_point_default :: time_point where
  "time_point_default = 0"

definition time_point_maximum :: time_point where
  "time_point_maximum = 2 ^ 63 - 1"

definition time_point_of_sec :: "time_point_sec \<Rightarrow> time_point" where
  "time_point_of_sec t = uint t * 1000000"

definition fc_seconds :: "32 word \<Rightarrow> int" where
  "fc_seconds n = uint n * 1000000"

subsection \<open>Exceptions and outcomes\<close>

text \<open>
  The exceptions the controller tells apart. \<open>fc_exception c\<close> is any other
  \<^verbatim>\<open>fc::exception\<close> (with code \<open>c\<close>); \<open>std_exception\<close> is an exception that does not
  derive from \<^verbatim>\<open>fc::exception\<close>, which \<^verbatim>\<open>catch(const fc::exception&)\<close> lets through.
\<close>

datatype exception =
    assert_exception
  | deadline_exception
  | tx_missing_sigs
  | expired_tx_exception
  | tx_exp_too_far_exception
  | fc_exception nat
  | std_exception nat
  | std_exception_wrapper nat

fun is_fc_exception :: "exception \<Rightarrow> bool" where
  "is_fc_exception (std_exception n) = False"
| "is_fc_exception e = True"

text \<open>
  \<^verbatim>\<open>FC_CAPTURE_AND_RETHROW\<close>: an \<^verbatim>\<open>fc::exception\<close> is rethrown (with a log line added), any
  other exception is wrapped into an \<^verbatim>\<open>fc::exception\<close>.
\<close>

fun fc_capture_and_rethrow :: "exception \<Rightarrow> exception" where
  "fc_capture_and_rethrow (std_exception n) = std_exception_wrapper n"
| "fc_capture_and_rethrow e = e"

text \<open>
  What a call that changes the controller can do: return a value, throw, or run into
  undefined behaviour. The first two leave a controller state behind.
\<close>

datatype ('a, 's) outcome = Ret 'a 's | Throw exception 's | Undef

subsection \<open>Blocks, transactions, schedules\<close>

type_synonym producer_key = "account_name \<times> public_key_type"

record producer_schedule_type =
  version :: "32 word"
  producers :: "producer_key list"

record action =
  name :: nat
  domain :: nat
  key :: nat
  data :: nat

record transaction =
  expiration :: time_point_sec
  ref_block_num :: "16 word"
  ref_block_prefix :: "32 word"
  actions :: "action list"
  signatures :: "signature_type list"

text \<open>A \<^verbatim>\<open>packed_transaction\<close> is the serialised transaction; packing is not modelled.\<close>

type_synonym packed_transaction = transaction

record transaction_metadata =
  trx_id :: transaction_id_type
  signed_id :: digest_type
  trx :: transaction
  packed_trx :: packed_transaction
  accepted :: bool

datatype status_enum = executed | soft_fail | hard_fail | delayed

record transaction_receipt_header =
  status :: status_enum

record transaction_receipt = transaction_receipt_header +
  receipt_trx :: packed_transaction

type_synonym action_receipt = nat

record transaction_trace =
  trace_id :: transaction_id_type
  receipt :: "transaction_receipt_header option"
  except :: "exception option"

record signed_block_header =
  previous :: block_id_type
  timestamp :: time_point
  confirmed :: "16 word"
  transaction_mroot :: digest_type
  action_mroot :: digest_type
  producer_signature :: signature_type

record signed_block = signed_block_header +
  transactions :: "transaction_receipt list"
  block_extensions :: "nat list"

record block_state =
  block_state_id :: block_id_type
  block_num :: block_num_type
  header :: signed_block_header
  dpos_irreversible_blocknum :: block_num_type
  bft_irreversible_blocknum :: block_num_type
  active_schedule :: producer_schedule_type
  pending_schedule :: producer_schedule_type
  block :: signed_block
  validated :: bool
  in_current_chain :: bool
  trxs :: "transaction_metadata list"

subsection \<open>The state store, the token store and the block log\<close>

record chain_config =
  max_transaction_lifetime :: "32 word"

record global_property_object =
  proposed_schedule_block_num :: "block_num_type option"
  proposed_schedule :: producer_schedule_type
  configuration :: chain_config

record transaction_object =
  obj_trx_id :: transaction_id_type
  obj_expiration :: time_point_sec

text \<open>
  The objects \<^verbatim>\<open>add_indices\<close> registers in the state store that the controller reads or
  writes: the global property singleton, the deduplication index of input transactions
  and the block summary ring.
\<close>

record db_objects =
  gpo :: global_property_object
  transaction_idx :: "transaction_object list"
  block_summary :: "nat \<Rightarrow> block_id_type"

text \<open>
  Modelled from the spec: the state store (chainbase, not under src/), an "indexed object
  store with nested undo sessions and a monotonic revision". A session pushes the
  objects as they are onto the undo stack under the next revision; dropping the session
  (\<open>undo\<close>) puts them back and steps the revision back; \<open>commit n\<close> forgets the undo
  states of revisions up to \<open>n\<close>. The newest undo state is the head of the list.
\<close>

record database =
  objects :: db_objects
  revision :: int
  undo_stack :: "(int \<times> db_objects) list"

definition start_undo_session :: "database \<Rightarrow> database" where
  "start_undo_session d =
     d\<lparr>revision := revision d + 1,
       undo_stack := (revision d + 1, objects d) # undo_stack d\<rparr>"

definition undo :: "database \<Rightarrow> database" where
  "undo d =
     (case undo_stack d of
        [] \<Rightarrow> d
      | (r, objs) # rest \<Rightarrow> d\<lparr>objects := objs, revision := revision d - 1, undo_stack := rest\<rparr>)"

definition commit :: "int \<Rightarrow> database \<Rightarrow> database" where
  "commit n d = d\<lparr>undo_stack := filter (\<lambda>(r, objs). \<not> r \<le> n) (undo_stack d)\<rparr>"

text \<open>
  Modelled from the spec: the token store (token_database, not under src/), a store
  "with named savepoints keyed by revision": \<open>new_savepoint_session n\<close> adds a savepoint
  tagged \<open>n\<close>, \<open>rollback_to_latest_savepoint\<close> returns to the latest savepoint and removes
  it, and \<open>pop_savepoints n\<close> "discards all savepoints with tag \<open>\<le> n\<close>".
\<close>

record 't token_database =
  tokens :: 't
  savepoints :: "(int \<times> 't) list"

definition new_savepoint_session :: "int \<Rightarrow> 't token_database \<Rightarrow> 't token_database" where
  "new_savepoint_session n t = t\<lparr>savepoints := (n, tokens t) # savepoints t\<rparr>"

definition rollback_to_latest_savepoint :: "'t token_database \<Rightarrow> 't token_database" where
  "rollback_to_latest_savepoint t =
     (case savepoints t of
        [] \<Rightarrow> t
      | (n, toks) # rest \<Rightarrow> t\<lparr>tokens := toks, savepoints := rest\<rparr>)"

definition pop_savepoints :: "int \<Rightarrow> 't token_database \<Rightarrow> 't token_database" where
  "pop_savepoints n t = t\<lparr>savepoints := filter (\<lambda>(m, toks). \<not> m \<le> n) (savepoints t)\<rparr>"

text \<open>
  Modelled from the spec: the block log (block_log, not under src/), an "append-only
  on-disk sequence of finalized blocks" with \<^verbatim>\<open>read_head\<close>. \<open>blog_head\<close> is the head the
  object holds in memory, \<open>blog_blocks\<close> the sequence on disk.
\<close>

record block_log =
  blog_head :: "signed_block option"
  blog_blocks :: "signed_block list"

definition read_head :: "block_log \<Rightarrow> block_log" where
  "read_head l =
     l\<lparr>blog_head := (if blog_blocks l = [] then None else Some (last (blog_blocks l)))\<rparr>"

definition blog_append :: "signed_block \<Rightarrow> block_log \<Rightarrow> block_log" where
  "blog_append b l = l\<lparr>blog_head := Some b, blog_blocks := blog_blocks l @ [b]\<rparr>"

subsection \<open>The controller's state\<close>

text \<open>
  \<^verbatim>\<open>struct pending_state\<close>. \<open>db_session\<close> and \<open>token_db_session\<close> say whether the session is
  still to be rolled back when the pending state is destroyed: they are set by the
  constructor and cleared by \<^verbatim>\<open>push()\<close>.
\<close>

record pending_state =
  db_session :: bool
  token_db_session :: bool
  pending_block_state :: block_state
  pending_actions :: "action_receipt list"

definition pending_state_push :: "pending_state \<Rightarrow> pending_state" where
  "pending_state_push p = p\<lparr>db_session := False, token_db_session := False\<rparr>"

text \<open>The signals of the controller; \<open>emitted\<close> below records them in order.\<close>

datatype signal =
    accepted_block_header block_state
  | accepted_block block_state
  | accepted_transaction transaction_metadata
  | applied_transaction transaction_trace
  | irreversible_block block_state

text \<open>
  \<^verbatim>\<open>struct controller_impl\<close>. The fork database (not under src/) is a value of a type
  \<open>'f\<close>; its operations are parameters of the model. \<open>head\<close> holds the block state the
  \<^verbatim>\<open>block_state_ptr\<close> points to; the flags that \<^verbatim>\<open>mark_in_current_chain\<close> and
  \<^verbatim>\<open>set_validity\<close> set on a block state are kept by the fork database. \<open>emitted\<close> is
  not a member: it lists the signals fired so far.
\<close>

record ('t, 'f) controller_impl =
  db :: database
  blog :: block_log
  pending :: "pending_state option"
  head :: block_state
  fork_db :: 'f
  token_db :: "'t token_database"
  unapplied_transactions :: "digest_type \<rightharpoonup> transaction_metadata"
  emitted :: "signal list"

text \<open>
  \<^verbatim>\<open>emit\<close> calls the subscribers of a signal and swallows whatever they throw; the model
  records the signal.
\<close>

definition emit :: "signal \<Rightarrow> ('t, 'f) controller_impl \<Rightarrow> ('t, 'f) controller_impl" where
  "emit sig s = s\<lparr>emitted := emitted s @ [sig]\<rparr>"

subsection \<open>Queries\<close>

definition get_global_properties :: "('t, 'f) controller_impl \<Rightarrow> global_property_object" where
  "get_global_properties s = gpo (objects (db s))"

definition head_block_num :: "('t, 'f) controller_impl \<Rightarrow> block_num_type" where
  "head_block_num s = block_num (head s)"

definition head_block_id :: "('t, 'f) controller_impl \<Rightarrow> block_id_type" where
  "head_block_id s = block_state_id (head s)"

definition pending_block_time :: "('t, 'f) controller_impl \<Rightarrow> exception + time_point" where
  "pending_block_time s =
     (case pending s of
        None \<Rightarrow> Inl assert_exception
      | Some p \<Rightarrow> Inr (timestamp (header (pending_block_state p))))"

subsection \<open>validate_expiration\<close>

definition validate_expiration :: "('t, 'f) controller_impl \<Rightarrow> transaction \<Rightarrow> exception + unit" where
  "validate_expiration s t =
     map_sum fc_capture_and_rethrow id
       (let chain_configuration = configuration (get_global_properties s) in
        case pending_block_time s of
          Inl e \<Rightarrow> Inl e
        | Inr pbt \<Rightarrow>
            if \<not> time_point_of_sec (expiration t) \<ge> pbt then Inl expired_tx_exception
            else if \<not> time_point_of_sec (expiration t)
                        \<le> pbt + fc_seconds (max_transaction_lifetime chain_configuration)
            then Inl tx_exp_too_far_exception
            else Inr ())"

subsection \<open>set_proposed_producers\<close>

definition modify_gpo ::
  "(global_property_object \<Rightarrow> global_property_object) \<Rightarrow> database \<Rightarrow> database" where
  "modify_gpo f d = d\<lparr>objects := (objects d)\<lparr>gpo := f (gpo (objects d))\<rparr>\<rparr>"

text \<open>
  \<^verbatim>\<open>std::equal\<close> over two ranges with both ends given is equality of the two lists.
  \<^verbatim>\<open>my->pending->...\<close> on an empty \<^verbatim>\<open>optional\<close> is undefined.
\<close>

definition set_proposed_producers ::
  "producer_key list \<Rightarrow> ('t, 'f) controller_impl \<Rightarrow> (bool, ('t, 'f) controller_impl) outcome" where
  "set_proposed_producers prods s =
     (let gp = get_global_properties s;
          cur_block_num = head_block_num s + 1
      in if (case proposed_schedule_block_num gp of
               None \<Rightarrow> False
             | Some n \<Rightarrow> n \<noteq> cur_block_num)
         then Ret False s
         else if (case proposed_schedule_block_num gp of
                    None \<Rightarrow> False
                  | Some n \<Rightarrow> prods = producers (proposed_schedule gp))
         then Ret False s
         else
           (case pending s of
              None \<Rightarrow> Undef
            | Some p \<Rightarrow>
                let bs = pending_block_state p;
                    cur = (if length (producers (pending_schedule bs)) = 0
                           then active_schedule bs else pending_schedule bs);
                    sch_version = version cur + 1
                in if prods = producers cur then Ret False s
                   else Ret True
                     (s\<lparr>db := modify_gpo
                          (\<lambda>g. g\<lparr>proposed_schedule_block_num := Some cur_block_num,
                                 proposed_schedule := \<lparr>version = sch_version, producers = prods\<rparr>\<rparr>)
                          (db s)\<rparr>)))"

subsection \<open>What the controller calls but does not define\<close>

text \<open>
  The transaction context, the authority checker, the block header state, the fork
  database and the hash functions are not under src/. The model takes them as the
  fields of an environment. A transaction context works on the two stores: its
  operations return the objects of the state store and the tokens of the token store as
  they leave them, also when they throw. \<open>throws_at\<close> gives the exceptions of the
  allocating statements of \<^verbatim>\<open>push_transaction\<close> (see there). \<open>fork_db_add_state\<close> is
  \<^verbatim>\<open>fork_db.add\<close> of a block state together with what the subscribers of the fork
  database's \<^verbatim>\<open>irreversible\<close> signal do during the call.
\<close>

type_synonym 't stores = "db_objects \<times> 't"

record ('t, 'f) environment =
  ctx_construct :: "('t, 'f) controller_impl \<Rightarrow> transaction_metadata \<Rightarrow> exception option"
  init_for_implicit_trx ::
    "('t, 'f) controller_impl \<Rightarrow> transaction_metadata \<Rightarrow> exception option \<times> 't stores"
  init_for_input_trx ::
    "('t, 'f) controller_impl \<Rightarrow> transaction_metadata \<Rightarrow> nat \<Rightarrow> exception option \<times> 't stores"
  exec ::
    "('t, 'f) controller_impl \<Rightarrow> transaction_metadata \<Rightarrow> time_point
       \<Rightarrow> (exception + action_receipt list) \<times> 't stores"
  finalize ::
    "('t, 'f) controller_impl \<Rightarrow> transaction_metadata \<Rightarrow> exception option \<times> 't stores"
  recover_keys :: "transaction_metadata \<Rightarrow> exception + public_key_type set"
  satisfied :: "'t \<Rightarrow> public_key_type set \<Rightarrow> action \<Rightarrow> bool"
  throws_at :: "transaction_metadata \<Rightarrow> nat \<Rightarrow> exception option"
  make_metadata :: "packed_transaction \<Rightarrow> exception + transaction_metadata"
  generate_next :: "block_state \<Rightarrow> time_point \<Rightarrow> exception + block_state"
  set_confirmed :: "16 word \<Rightarrow> block_state \<Rightarrow> exception + block_state"
  maybe_promote_pending :: "block_state \<Rightarrow> bool \<times> block_state"
  sign :: "block_state \<Rightarrow> (digest_type \<Rightarrow> signature_type) \<Rightarrow> exception + block_state"
  header_id :: "signed_block_header \<Rightarrow> block_id_type"
  num_from_id :: "block_id_type \<Rightarrow> block_num_type"
  merkle :: "digest_type list \<Rightarrow> digest_type"
  action_digest :: "action_receipt \<Rightarrow> digest_type"
  receipt_digest :: "transaction_receipt \<Rightarrow> digest_type"
  fork_db_head :: "'f \<Rightarrow> block_state"
  fork_db_get_block :: "'f \<Rightarrow> block_id_type \<Rightarrow> block_state option"
  fetch_branch_from ::
    "'f \<Rightarrow> block_id_type \<Rightarrow> block_id_type \<Rightarrow> exception + block_state list \<times> block_state list"
  mark_in_current_chain :: "block_state \<Rightarrow> bool \<Rightarrow> 'f \<Rightarrow> exception + 'f"
  set_validity :: "block_state \<Rightarrow> bool \<Rightarrow> 'f \<Rightarrow> 'f"
  fork_db_add_state ::
    "block_state \<Rightarrow> ('t, 'f) controller_impl \<Rightarrow> (block_state, ('t, 'f) controller_impl) outcome"

definition set_stores :: "'t stores \<Rightarrow> ('t, 'f) controller_impl \<Rightarrow> ('t, 'f) controller_impl" where
  "set_stores st s =
     s\<lparr>db := (db s)\<lparr>objects := fst st\<rparr>, token_db := (token_db s)\<lparr>tokens := snd st\<rparr>\<rparr>"

text \<open>Sequencing: the rest runs on the state a call returns with.\<close>

definition bind ::
  "('a, 's) outcome \<Rightarrow> ('a \<Rightarrow> 's \<Rightarrow> ('b, 's) outcome) \<Rightarrow> ('b, 's) outcome" where
  "bind m f = (case m of Ret x s \<Rightarrow> f x s | Throw e s \<Rightarrow> Throw e s | Undef \<Rightarrow> Undef)"

subsection \<open>The pending state's sessions\<close>

text \<open>
  Destroying a \<^verbatim>\<open>pending_state\<close> destroys its two sessions; a session that was not
  pushed rolls its store back.
\<close>

definition drop_sessions ::
  "bool \<Rightarrow> bool \<Rightarrow> ('t, 'f) controller_impl \<Rightarrow> ('t, 'f) controller_impl" where
  "drop_sessions dbs tks s =
     s\<lparr>token_db := (if tks then rollback_to_latest_savepoint (token_db s) else token_db s),
       db := (if dbs then undo (db s) else db s)\<rparr>"

definition pending_reset :: "('t, 'f) controller_impl \<Rightarrow> ('t, 'f) controller_impl" where
  "pending_reset s =
     (case pending s of
        None \<Rightarrow> s
      | Some p \<Rightarrow> drop_sessions (db_session p) (token_db_session p) (s\<lparr>pending := None\<rparr>))"

subsection \<open>push_transaction\<close>

text \<open>
  \<^verbatim>\<open>make_block_restore_point\<close> reads the three sizes; the callback of the scoped guard
  resizes the three vectors to them. Between the two the vectors only grow, so
  \<^verbatim>\<open>resize\<close> never has to add elements and is \<open>take\<close>.
\<close>

definition make_block_restore_point :: "pending_state \<Rightarrow> nat \<times> nat \<times> nat" where
  "make_block_restore_point p =
     (length (transactions (block (pending_block_state p))),
      length (trxs (pending_block_state p)),
      length (pending_actions p))"

definition block_restore :: "nat \<times> nat \<times> nat \<Rightarrow> pending_state \<Rightarrow> pending_state" where
  "block_restore sizes p =
     (case sizes of
        (orig_block_transactions_size, orig_state_transactions_size, orig_state_actions_size) \<Rightarrow>
          p\<lparr>pending_block_state :=
              (pending_block_state p)
                \<lparr>block := (block (pending_block_state p))
                   \<lparr>transactions :=
                      take orig_block_transactions_size
                        (transactions (block (pending_block_state p)))\<rparr>,
                 trxs := take orig_state_transactions_size (trxs (pending_block_state p))\<rparr>,
            pending_actions := take orig_state_actions_size (pending_actions p)\<rparr>)"

definition push_receipt ::
  "packed_transaction \<Rightarrow> status_enum \<Rightarrow> pending_state \<Rightarrow> pending_state \<times> transaction_receipt" where
  "push_receipt pt st p =
     (let r = \<lparr>status = st, receipt_trx = pt\<rparr>
      in (p\<lparr>pending_block_state :=
              (pending_block_state p)
                \<lparr>block := (block (pending_block_state p))
                   \<lparr>transactions := transactions (block (pending_block_state p)) @ [r]\<rparr>\<rparr>\<rparr>,
          r))"

definition failure_is_subjective :: "exception \<Rightarrow> bool" where
  "failure_is_subjective e = (e = deadline_exception)"

definition check_authorization ::
  "('t, 'f) environment \<Rightarrow> transaction_metadata \<Rightarrow> ('t, 'f) controller_impl \<Rightarrow> exception option" where
  "check_authorization env t s =
     (case recover_keys env t of
        Inl e \<Rightarrow> Some e
      | Inr keys \<Rightarrow>
          if list_all (satisfied env (tokens (token_db s)) keys) (actions (trx t))
          then None else Some tx_missing_sigs)"

text \<open>
  The statements of \<^verbatim>\<open>push_transaction\<close> from the restore point to \<^verbatim>\<open>return trace\<close>,
  without the guard. The three appends allocate, so each may throw: \<open>throws_at env t k\<close>
  is the exception the \<open>k\<close>-th of them throws, if it does. The metadata object
  \<^verbatim>\<open>trx\<close> is shared with the entry just appended to \<^verbatim>\<open>trxs\<close>, so setting \<^verbatim>\<open>trx->accepted\<close>
  sets it there. The state is paired with the trace the context holds.
\<close>

definition set_pending ::
  "pending_state \<Rightarrow> ('t, 'f) controller_impl \<Rightarrow> ('t, 'f) controller_impl" where
  "set_pending p s = s\<lparr>pending := Some p\<rparr>"

definition mark_accepted :: "bool \<Rightarrow> pending_state \<Rightarrow> pending_state" where
  "mark_accepted implicit p =
     (if implicit \<or> trxs (pending_block_state p) = [] then p
      else p\<lparr>pending_block_state :=
               (pending_block_state p)
                 \<lparr>trxs := butlast (trxs (pending_block_state p))
                           @ [(last (trxs (pending_block_state p)))\<lparr>accepted := True\<rparr>]\<rparr>\<rparr>)"

definition push_transaction_record ::
  "('t, 'f) environment \<Rightarrow> transaction_metadata \<Rightarrow> bool \<Rightarrow> action_receipt list
     \<Rightarrow> pending_state \<Rightarrow> ('t, 'f) controller_impl \<times> transaction_trace
     \<Rightarrow> (transaction_trace, ('t, 'f) controller_impl \<times> transaction_trace) outcome" where
  "push_transaction_record env t implicit acts p0 st =
     (case st of (s, trace) \<Rightarrow>
        (case (if implicit then None else throws_at env t 0) of
           Some e \<Rightarrow> Throw e (s, trace)
         | None \<Rightarrow>
             let p1 = (if implicit then p0 else fst (push_receipt (packed_trx t) executed p0));
                 trace1 = trace\<lparr>receipt := Some \<lparr>status = executed\<rparr>\<rparr>
             in (case (if implicit then None else throws_at env t 1) of
                   Some e \<Rightarrow> Throw e (set_pending p1 s, trace1)
                 | None \<Rightarrow>
                     let p2 = (if implicit then p1
                               else p1\<lparr>pending_block_state :=
                                         (pending_block_state p1)
                                           \<lparr>trxs := trxs (pending_block_state p1) @ [t]\<rparr>\<rparr>)
                     in (case throws_at env t 2 of
                           Some e \<Rightarrow> Throw e (set_pending p2 s, trace1)
                         | None \<Rightarrow>
                             let p3 = p2\<lparr>pending_actions := pending_actions p2 @ acts\<rparr>;
                                 s3 = set_pending (mark_accepted implicit p3) s;
                                 s4 = (if \<not> accepted t then emit (accepted_transaction t) s3 else s3);
                                 s5 = emit (applied_transaction trace1) s4;
                                 s6 = (if \<not> implicit
                                       then s5\<lparr>unapplied_transactions :=
                                                (unapplied_transactions s5)(signed_id t := None)\<rparr>
                                       else s5)
                             in Ret trace1 (s6, trace1)))))"

text \<open>The same statements under the scoped guard, which fires unless it was cancelled.\<close>

definition push_transaction_guarded ::
  "('t, 'f) environment \<Rightarrow> transaction_metadata \<Rightarrow> bool \<Rightarrow> action_receipt list
     \<Rightarrow> ('t, 'f) controller_impl \<times> transaction_trace
     \<Rightarrow> (transaction_trace, ('t, 'f) controller_impl \<times> transaction_trace) outcome" where
  "push_transaction_guarded env t implicit acts st =
     (case pending (fst st) of
        None \<Rightarrow> Undef
      | Some p0 \<Rightarrow>
          let restore = make_block_restore_point p0
          in (case push_transaction_record env t implicit acts p0 st of
                Throw e (s', trace') \<Rightarrow>
                  Throw e (s'\<lparr>pending := map_option (block_restore restore) (pending s')\<rparr>, trace')
              | r \<Rightarrow> r))"

text \<open>The inner \<^verbatim>\<open>try\<close> block.\<close>

definition push_transaction_try ::
  "('t, 'f) environment \<Rightarrow> transaction_metadata \<Rightarrow> time_point \<Rightarrow> bool
     \<Rightarrow> ('t, 'f) controller_impl \<times> transaction_trace
     \<Rightarrow> (transaction_trace, ('t, 'f) controller_impl \<times> transaction_trace) outcome" where
  "push_transaction_try env t deadline implicit st =
     (case st of (s, trace) \<Rightarrow>
        (case (if implicit then init_for_implicit_trx env s t
               else init_for_input_trx env s t (length (signatures (trx t)))) of
           (Some e, st1) \<Rightarrow> Throw e (set_stores st1 s, trace)
         | (None, st1) \<Rightarrow>
             let s1 = set_stores st1 s
             in (case (if \<not> implicit then check_authorization env t s1 else None) of
                   Some e \<Rightarrow> Throw e (s1, trace)
                 | None \<Rightarrow>
                     (case exec env s1 t deadline of
                        (Inl e, st2) \<Rightarrow> Throw e (set_stores st2 s1, trace)
                      | (Inr acts, st2) \<Rightarrow>
                          let s2 = set_stores st2 s1
                          in (case finalize env s2 t of
                                (Some e, st3) \<Rightarrow> Throw e (set_stores st3 s2, trace)
                              | (None, st3) \<Rightarrow>
                                  push_transaction_guarded env t implicit acts
                                    (set_stores st3 s2, trace))))))"

definition push_transaction ::
  "('t, 'f) environment \<Rightarrow> transaction_metadata \<Rightarrow> time_point \<Rightarrow> bool
     \<Rightarrow> ('t, 'f) controller_impl \<Rightarrow> (transaction_trace, ('t, 'f) controller_impl) outcome" where
  "push_transaction env t deadline implicit s =
     (if \<not> deadline \<noteq> time_point_default then Throw assert_exception s
      else
        (case ctx_construct env s t of
           Some e \<Rightarrow> Throw (fc_capture_and_rethrow e) s
         | None \<Rightarrow>
             (case push_transaction_try env t deadline implicit
                     (s, \<lparr>trace_id = trx_id t, receipt = None, except = None\<rparr>) of
                Ret trace (s', trace') \<Rightarrow> Ret trace s'
              | Throw e (s', trace) \<Rightarrow>
                  if is_fc_exception e
                  then Ret (trace\<lparr>except := Some e\<rparr>)
                         (if \<not> failure_is_subjective e
                          then s'\<lparr>unapplied_transactions :=
                                   (unapplied_transactions s')(signed_id t := None)\<rparr>
                          else s')
                  else Throw (fc_capture_and_rethrow e) s'
              | Undef \<Rightarrow> Undef)))"

subsection \<open>start_block and abort_block\<close>

text \<open>
  Modelled from the spec: \<^verbatim>\<open>block_state::set_new_producers\<close> (block_header_state, not
  under src/) "moves the proposed schedule into pending".
\<close>

definition set_new_producers :: "producer_schedule_type \<Rightarrow> block_state \<Rightarrow> block_state" where
  "set_new_producers sch bs = bs\<lparr>pending_schedule := sch\<rparr>"

text \<open>
  Modelled from the spec: \<^verbatim>\<open>shared_producer_schedule_type::clear\<close> (producer_schedule, not
  under src/), with which \<^verbatim>\<open>start_block\<close> "clears the proposal": the schedule is left
  without producers, at version 0.
\<close>

definition schedule_clear :: "producer_schedule_type \<Rightarrow> producer_schedule_type" where
  "schedule_clear sch = sch\<lparr>version := 0, producers := []\<rparr>"

text \<open>
  \<open>transaction_idx\<close> lists the deduplication index in \<^verbatim>\<open>by_expiration\<close> order, so the
  loop of \<^verbatim>\<open>clear_expired_input_transactions\<close> removes from the front while the front
  has expired.
\<close>

definition clear_expired_input_transactions ::
  "('t, 'f) controller_impl \<Rightarrow> (unit, ('t, 'f) controller_impl) outcome" where
  "clear_expired_input_transactions s =
     (case pending_block_time s of
        Inl e \<Rightarrow> Throw e s
      | Inr now \<Rightarrow>
          Ret ()
            (s\<lparr>db := (db s)\<lparr>objects := (objects (db s))
                  \<lparr>transaction_idx :=
                     dropWhile (\<lambda>obj. now > time_point_of_sec (obj_expiration obj))
                       (transaction_idx (objects (db s)))\<rparr>\<rparr>\<rparr>))"

text \<open>
  The four conditions under which \<^verbatim>\<open>start_block\<close> promotes the proposed schedule to
  pending, as the \<^verbatim>\<open>if\<close> of the source has them.
\<close>

definition promotes_proposed :: "global_property_object \<Rightarrow> block_state \<Rightarrow> bool \<Rightarrow> bool" where
  "promotes_proposed gp bs was_pending_promoted =
     ((case proposed_schedule_block_num gp of
         None \<Rightarrow> False
       | Some n \<Rightarrow> n \<le> dpos_irreversible_blocknum bs) \<and>
      length (producers (pending_schedule bs)) = 0 \<and>
      \<not> was_pending_promoted)"

text \<open>
  \<^verbatim>\<open>start_block\<close> from the moment the pending block state exists. \<open>p\<close> is the pending
  state as constructed.
\<close>

definition start_block_schedule ::
  "('t, 'f) environment \<Rightarrow> 16 word \<Rightarrow> pending_state \<Rightarrow> ('t, 'f) controller_impl
     \<Rightarrow> (unit, ('t, 'f) controller_impl) outcome" where
  "start_block_schedule env confirm_block_count p s =
     (let bs0 = (pending_block_state p)\<lparr>in_current_chain := True\<rparr>;
          s0 = set_pending (p\<lparr>pending_block_state := bs0\<rparr>) s
      in case set_confirmed env confirm_block_count bs0 of
           Inl e \<Rightarrow> Throw e s0
         | Inr bs1 \<Rightarrow>
             (case maybe_promote_pending env bs1 of
                (was_pending_promoted, bs2) \<Rightarrow>
                  let s2 = set_pending (p\<lparr>pending_block_state := bs2\<rparr>) s;
                      gp = get_global_properties s2
                  in if promotes_proposed gp bs2 was_pending_promoted
                     then clear_expired_input_transactions
                            ((set_pending
                                (p\<lparr>pending_block_state :=
                                     set_new_producers (proposed_schedule gp) bs2\<rparr>) s)
                             \<lparr>db := modify_gpo
                                (\<lambda>g. g\<lparr>proposed_schedule_block_num := None,
                                       proposed_schedule := schedule_clear (proposed_schedule g)\<rparr>)
                                (db s)\<rparr>)
                     else clear_expired_input_transactions s2))"

text \<open>
  \<^verbatim>\<open>start_block\<close>. The savepoint of the token store is tagged with the revision of the
  state store before the undo session starts (the spec's "pre-start revision"). The
  scoped guard \<^verbatim>\<open>guard_pending\<close> resets \<^verbatim>\<open>pending\<close> when the function is left by an
  exception, which destroys the pending state's sessions. Where the construction of the
  block state throws, the pending state holds its two fresh sessions and no block state
  yet.
\<close>

definition start_block ::
  "('t, 'f) environment \<Rightarrow> time_point \<Rightarrow> 16 word \<Rightarrow> ('t, 'f) controller_impl
     \<Rightarrow> (unit, ('t, 'f) controller_impl) outcome" where
  "start_block env when confirm_block_count s =
     (if \<not> pending s = None then Throw assert_exception s
      else if \<not> revision (db s) = uint (block_num (head s)) then Throw assert_exception s
      else
        let s1 = s\<lparr>token_db := new_savepoint_session (revision (db s)) (token_db s),
                   db := start_undo_session (db s)\<rparr>
        in case generate_next env (head s) when of
             Inl e \<Rightarrow> Throw e (drop_sessions True True s1)
           | Inr bs \<Rightarrow>
               (case start_block_schedule env confirm_block_count
                       \<lparr>db_session = True, token_db_session = True,
                        pending_block_state = bs, pending_actions = []\<rparr> s1 of
                  Throw e s' \<Rightarrow> Throw e (pending_reset s')
                | r \<Rightarrow> r))"

definition abort_block :: "('t, 'f) controller_impl \<Rightarrow> ('t, 'f) controller_impl" where
  "abort_block s =
     (case pending s of
        None \<Rightarrow> s
      | Some p \<Rightarrow>
          pending_reset
            (s\<lparr>unapplied_transactions :=
                 fold (\<lambda>t m. m(signed_id t \<mapsto> t)) (trxs (pending_block_state p))
                   (unapplied_transactions s)\<rparr>))"

text \<open>
  A run of \<^verbatim>\<open>push_transaction\<close> calls on the pending block, each given by its transaction,
  deadline and mode. A call that returns and a call that throws both leave a state for
  the next call.
\<close>

fun push_transactions ::
  "('t, 'f) environment \<Rightarrow> (transaction_metadata \<times> time_point \<times> bool) list
     \<Rightarrow> ('t, 'f) controller_impl \<Rightarrow> ('t, 'f) controller_impl option" where
  "push_transactions env [] s = Some s"
| "push_transactions env ((t, deadline, implicit) # calls) s =
     (case push_transaction env t deadline implicit s of
        Ret tr s' \<Rightarrow> push_transactions env calls s'
      | Throw e s' \<Rightarrow> push_transactions env calls s'
      | Undef \<Rightarrow> None)"

subsection \<open>on_irreversible\<close>

text \<open>
  A block's number and id are computed from its header: \<^verbatim>\<open>block_num()\<close> is one more than
  the number in \<^verbatim>\<open>previous\<close>, \<^verbatim>\<open>id()\<close> is the header's hash.
\<close>

definition signed_block_num :: "('t, 'f) environment \<Rightarrow> signed_block \<Rightarrow> block_num_type" where
  "signed_block_num env b = num_from_id env (previous b) + 1"

definition signed_block_id :: "('t, 'f) environment \<Rightarrow> signed_block \<Rightarrow> block_id_type" where
  "signed_block_id env b = header_id env (signed_block_header.truncate b)"

definition on_irreversible_finish ::
  "block_state \<Rightarrow> ('t, 'f) controller_impl \<Rightarrow> (unit, ('t, 'f) controller_impl) outcome" where
  "on_irreversible_finish bs s =
     (let s1 = emit (irreversible_block bs) s
      in Ret () (s1\<lparr>db := commit (uint (block_num bs)) (db s1),
                    token_db := pop_savepoints (uint (block_num bs)) (token_db s1)\<rparr>))"

definition on_irreversible ::
  "('t, 'f) environment \<Rightarrow> block_state \<Rightarrow> ('t, 'f) controller_impl
     \<Rightarrow> (unit, ('t, 'f) controller_impl) outcome" where
  "on_irreversible env bs s =
     (let s0 = (if blog_head (blog s) = None then s\<lparr>blog := read_head (blog s)\<rparr> else s)
      in case blog_head (blog s0) of
           None \<Rightarrow> Throw assert_exception s0
         | Some log_head \<Rightarrow>
             let lh_block_num = signed_block_num env log_head
             in if block_num bs - 1 = lh_block_num
                then (if \<not> previous (block bs) = signed_block_id env log_head
                      then Throw assert_exception s0
                      else on_irreversible_finish bs (s0\<lparr>blog := blog_append (block bs) (blog s0)\<rparr>))
                else if block_num bs - 1 > lh_block_num
                then (if block_num bs = signed_block_num env log_head
                         \<and> \<not> block_state_id bs = signed_block_id env log_head
                      then Throw assert_exception s0
                      else on_irreversible_finish bs s0)
                else on_irreversible_finish bs s0)"

subsection \<open>finalize_block, sign_block, commit_block, apply_block\<close>

definition create_block_summary ::
  "('t, 'f) environment \<Rightarrow> block_id_type \<Rightarrow> ('t, 'f) controller_impl \<Rightarrow> ('t, 'f) controller_impl" where
  "create_block_summary env bid s =
     (let sid = unat (num_from_id env bid AND 0xffff)
      in s\<lparr>db := (db s)\<lparr>objects := (objects (db s))
              \<lparr>block_summary := (block_summary (objects (db s)))(sid := bid)\<rparr>\<rparr>\<rparr>)"

definition finalize_block ::
  "('t, 'f) environment \<Rightarrow> ('t, 'f) controller_impl \<Rightarrow> (unit, ('t, 'f) controller_impl) outcome" where
  "finalize_block env s =
     (case pending s of
        None \<Rightarrow> Throw assert_exception s
      | Some p \<Rightarrow>
          let bs = pending_block_state p;
              bs1 = bs\<lparr>header := (header bs)
                      \<lparr>action_mroot := merkle env (map (action_digest env) (pending_actions p))\<rparr>\<rparr>;
              bs2 = bs1\<lparr>header := (header bs1)
                      \<lparr>transaction_mroot :=
                         merkle env (map (receipt_digest env) (transactions (block bs1)))\<rparr>\<rparr>;
              bs3 = bs2\<lparr>block_state_id := header_id env (header bs2)\<rparr>
          in Ret () (create_block_summary env (block_state_id bs3)
                       (set_pending (p\<lparr>pending_block_state := bs3\<rparr>) s)))"

text \<open>
  \<^verbatim>\<open>static_cast<signed_block_header&>(*p->block) = p->header\<close> copies the header into
  the block.
\<close>

definition copy_header :: "signed_block_header \<Rightarrow> signed_block \<Rightarrow> signed_block" where
  "copy_header h b =
     b\<lparr>previous := previous h, timestamp := timestamp h, confirmed := confirmed h,
       transaction_mroot := transaction_mroot h, action_mroot := action_mroot h,
       producer_signature := producer_signature h\<rparr>"

definition sign_block ::
  "('t, 'f) environment \<Rightarrow> (digest_type \<Rightarrow> signature_type) \<Rightarrow> bool \<Rightarrow> ('t, 'f) controller_impl
     \<Rightarrow> (unit, ('t, 'f) controller_impl) outcome" where
  "sign_block env signer_callback trust s =
     (case pending s of
        None \<Rightarrow> Undef
      | Some p \<Rightarrow>
          (case sign env (pending_block_state p) signer_callback of
             Inl e \<Rightarrow> Throw e s
           | Inr bs \<Rightarrow>
               Ret () (set_pending
                         (p\<lparr>pending_block_state := bs\<lparr>block := copy_header (header bs) (block bs)\<rparr>\<rparr>)
                         s)))"

text \<open>\<^verbatim>\<open>log_irreversible_blocks\<close>, called last, has an empty body.\<close>

definition commit_block ::
  "('t, 'f) environment \<Rightarrow> bool \<Rightarrow> ('t, 'f) controller_impl
     \<Rightarrow> (unit, ('t, 'f) controller_impl) outcome" where
  "commit_block env add_to_fork_db s =
     (case pending s of
        None \<Rightarrow> Undef
      | Some p0 \<Rightarrow>
          let p = (if add_to_fork_db
                   then p0\<lparr>pending_block_state := (pending_block_state p0)\<lparr>validated := True\<rparr>\<rparr>
                   else p0)
          in bind
               (if add_to_fork_db
                then bind (fork_db_add_state env (pending_block_state p) (set_pending p s))
                       (\<lambda>new_bsp s1.
                          let s2 = emit (accepted_block_header (pending_block_state p)) s1;
                              s3 = s2\<lparr>head := fork_db_head env (fork_db s2)\<rparr>
                          in if \<not> new_bsp = head s3 then Throw assert_exception s3 else Ret () s3)
                else Ret () s)
               (\<lambda>u s4.
                  let s5 = emit (accepted_block (pending_block_state p)) s4
                  in Ret () (pending_reset (set_pending (pending_state_push p) s5))))"

fun apply_block_transactions ::
  "('t, 'f) environment \<Rightarrow> transaction_receipt list \<Rightarrow> ('t, 'f) controller_impl
     \<Rightarrow> (unit, ('t, 'f) controller_impl) outcome" where
  "apply_block_transactions env [] s = Ret () s"
| "apply_block_transactions env (r # rs) s =
     (case make_metadata env (receipt_trx r) of
        Inl e \<Rightarrow> Throw e s
      | Inr mtrx \<Rightarrow>
          bind (push_transaction env mtrx time_point_maximum False s)
            (\<lambda>trace s'. apply_block_transactions env rs s'))"

definition apply_block ::
  "('t, 'f) environment \<Rightarrow> signed_block \<Rightarrow> bool \<Rightarrow> ('t, 'f) controller_impl
     \<Rightarrow> (unit, ('t, 'f) controller_impl) outcome" where
  "apply_block env b trust s =
     (case (if \<not> length (block_extensions b) = 0 then Throw assert_exception s
            else bind (start_block env (timestamp b) (confirmed b) s)
                   (\<lambda>u s1. bind (apply_block_transactions env (transactions b) s1)
                   (\<lambda>u s2. bind (finalize_block env s2)
                   (\<lambda>u s3. bind (sign_block env (\<lambda>d. producer_signature b) trust s3)
                   (\<lambda>u s4. commit_block env False s4))))) of
        Throw e s' \<Rightarrow>
          if is_fc_exception e then Throw (fc_capture_and_rethrow e) (abort_block s')
          else Throw (fc_capture_and_rethrow e) s'
      | r \<Rightarrow> r)"

subsection \<open>pop_block and maybe_switch_forks\<close>

definition pop_block ::
  "('t, 'f) environment \<Rightarrow> ('t, 'f) controller_impl \<Rightarrow> (unit, ('t, 'f) controller_impl) outcome" where
  "pop_block env s =
     (case fork_db_get_block env (fork_db s) (previous (header (head s))) of
        None \<Rightarrow> Throw assert_exception s
      | Some prev \<Rightarrow>
          Ret ()
            (s\<lparr>unapplied_transactions :=
                 fold (\<lambda>t m. m(signed_id t \<mapsto> t)) (trxs (head s)) (unapplied_transactions s),
               head := prev,
               db := undo (db s),
               token_db := rollback_to_latest_savepoint (token_db s)\<rparr>))"

text \<open>The first loop of the reorg: pop the blocks of \<^verbatim>\<open>branches.second\<close> in order.\<close>

fun pop_branch ::
  "('t, 'f) environment \<Rightarrow> block_state list \<Rightarrow> ('t, 'f) controller_impl
     \<Rightarrow> (unit, ('t, 'f) controller_impl) outcome" where
  "pop_branch env [] s = Ret () s"
| "pop_branch env (b # bs) s =
     (case mark_in_current_chain env b False (fork_db s) of
        Inl e \<Rightarrow> Throw e s
      | Inr f \<Rightarrow> bind (pop_block env (s\<lparr>fork_db := f\<rparr>)) (\<lambda>u s'. pop_branch env bs s'))"

text \<open>The last loop of the reversal: apply the blocks of \<^verbatim>\<open>branches.second\<close> again.\<close>

fun reapply_branch ::
  "('t, 'f) environment \<Rightarrow> block_state list \<Rightarrow> ('t, 'f) controller_impl
     \<Rightarrow> (unit, ('t, 'f) controller_impl) outcome" where
  "reapply_branch env [] s = Ret () s"
| "reapply_branch env (b # bs) s =
     bind (apply_block env (block b) True s)
       (\<lambda>u s1. case mark_in_current_chain env b True (fork_db s1) of
                  Inl e \<Rightarrow> Throw e (s1\<lparr>head := b\<rparr>)
                | Inr f \<Rightarrow> reapply_branch env bs (s1\<lparr>head := b, fork_db := f\<rparr>))"

text \<open>
  Iterators. A reverse iterator over a vector \<open>xs\<close> is the index \<open>b\<close> of its \<^verbatim>\<open>base()\<close>:
  \<^verbatim>\<open>rbegin()\<close> is \<open>length xs\<close>, \<^verbatim>\<open>rend()\<close> is \<open>0\<close>, \<^verbatim>\<open>*ritr\<close> is \<open>xs ! (b - 1)\<close> and
  \<^verbatim>\<open>++ritr\<close> is \<open>b - 1\<close>. An iterator may not leave \<open>[begin(), end()]\<close>: moving a reverse
  iterator past \<^verbatim>\<open>rend()\<close> is undefined, and so is reading through an iterator that
  points at no element. A forward iterator is a vector of the two branches and an index.
\<close>

definition reverse_deref :: "'a list \<Rightarrow> nat \<Rightarrow> 'a option" where
  "reverse_deref xs b = (if 0 < b \<and> b \<le> length xs then Some (xs ! (b - 1)) else None)"

definition reverse_plus :: "nat \<Rightarrow> nat \<Rightarrow> nat option" where
  "reverse_plus b n = (if n \<le> b then Some (b - n) else None)"

datatype branch_vector = branches_first | branches_second

text \<open>
  \<^verbatim>\<open>while(ritr != branches.first.rend()) { fork_db.set_validity(*ritr, false); ++ritr; }\<close>
  returning the fork database and the iterator it ends with.
\<close>

fun invalidate_rest ::
  "('t, 'f) environment \<Rightarrow> block_state list \<Rightarrow> nat \<Rightarrow> 'f \<Rightarrow> ('f \<times> nat) option" where
  "invalidate_rest env first 0 f = Some (f, 0)"
| "invalidate_rest env first (Suc i) f =
     (case reverse_deref first (Suc i) of
        None \<Rightarrow> None
      | Some b \<Rightarrow> invalidate_rest env first i (set_validity env b False f))"

text \<open>
  \<^verbatim>\<open>for(auto itr = ...; itr != branches.second.end(); ++itr)\<close> with the body that pops a
  block. Comparing \<open>itr\<close> with \<^verbatim>\<open>branches.second.end()\<close> has a meaning only for an iterator
  of \<^verbatim>\<open>branches.second\<close>.
\<close>

function pop_bad_fork ::
  "('t, 'f) environment \<Rightarrow> block_state list \<Rightarrow> block_state list \<Rightarrow> branch_vector \<times> nat
     \<Rightarrow> ('t, 'f) controller_impl \<Rightarrow> (unit, ('t, 'f) controller_impl) outcome" where
  "pop_bad_fork env first second itr s =
     (if fst itr \<noteq> branches_second then Undef
      else if snd itr = length second then Ret () s
      else if snd itr > length second then Undef
      else (case mark_in_current_chain env (second ! snd itr) False (fork_db s) of
              Inl e \<Rightarrow> Throw e s
            | Inr f \<Rightarrow>
                (case pop_block env (s\<lparr>fork_db := f\<rparr>) of
                   Ret u s' \<Rightarrow> pop_bad_fork env first second (fst itr, Suc (snd itr)) s'
                 | Throw e s' \<Rightarrow> Throw e s'
                 | Undef \<Rightarrow> Undef)))"
  by pat_completeness auto
termination
  by (relation "measure (\<lambda>(env, first, second, itr, s). length second - snd itr)") auto

text \<open>
  What the reorg does once a block of the new branch has thrown \<open>e\<close>; \<open>b\<close> is the reverse
  iterator \<^verbatim>\<open>ritr\<close>, at the block that threw.
\<close>

definition switch_forks_reversal ::
  "('t, 'f) environment \<Rightarrow> block_state list \<Rightarrow> block_state list \<Rightarrow> nat \<Rightarrow> exception
     \<Rightarrow> ('t, 'f) controller_impl \<Rightarrow> (unit, ('t, 'f) controller_impl) outcome" where
  "switch_forks_reversal env first second b e s =
     (case invalidate_rest env first b (fork_db s) of
        None \<Rightarrow> Undef
      | Some (f, ritr) \<Rightarrow>
          (case reverse_plus ritr 1 of
             None \<Rightarrow> Undef
           | Some base \<Rightarrow>
               bind (pop_bad_fork env first second (branches_first, base) (s\<lparr>fork_db := f\<rparr>))
                 (\<lambda>u s1.
                    if second = [] then Undef
                    else if \<not> head_block_id s1 = previous (header (last second))
                    then Throw assert_exception s1
                    else bind (reapply_branch env (rev second) s1) (\<lambda>u s2. Throw e s2))))"

text \<open>The \<^verbatim>\<open>try\<close> block of the replay loop, for the block \<open>b\<close>.\<close>

definition switch_forks_apply ::
  "('t, 'f) environment \<Rightarrow> block_state \<Rightarrow> ('t, 'f) controller_impl
     \<Rightarrow> (unit, ('t, 'f) controller_impl) outcome" where
  "switch_forks_apply env b s =
     bind (apply_block env (block b) False s)
       (\<lambda>u s1. case mark_in_current_chain env b True (fork_db s1) of
                  Inl e \<Rightarrow> Throw e (s1\<lparr>head := b\<rparr>)
                | Inr f \<Rightarrow> Ret () (s1\<lparr>head := b, fork_db := f\<rparr>))"

text \<open>The replay loop over \<^verbatim>\<open>branches.first\<close> in reverse, from the reverse iterator given.\<close>

fun switch_forks_replay ::
  "('t, 'f) environment \<Rightarrow> block_state list \<Rightarrow> block_state list \<Rightarrow> nat
     \<Rightarrow> ('t, 'f) controller_impl \<Rightarrow> (unit, ('t, 'f) controller_impl) outcome" where
  "switch_forks_replay env first second 0 s = Ret () s"
| "switch_forks_replay env first second (Suc i) s =
     (case reverse_deref first (Suc i) of
        None \<Rightarrow> Undef
      | Some b \<Rightarrow>
          (case switch_forks_apply env b s of
             Ret u s1 \<Rightarrow> switch_forks_replay env first second i s1
           | Throw e s1 \<Rightarrow>
               if is_fc_exception e then switch_forks_reversal env first second (Suc i) e s1
               else Throw e s1
           | Undef \<Rightarrow> Undef))"

definition maybe_switch_forks ::
  "('t, 'f) environment \<Rightarrow> bool \<Rightarrow> ('t, 'f) controller_impl
     \<Rightarrow> (unit, ('t, 'f) controller_impl) outcome" where
  "maybe_switch_forks env trust s =
     (let new_head = fork_db_head env (fork_db s)
      in if previous (header new_head) = block_state_id (head s)
         then (case bind (apply_block env (block new_head) trust s)
                      (\<lambda>u s1. case mark_in_current_chain env new_head True (fork_db s1) of
                                 Inl e \<Rightarrow> Throw e s1
                               | Inr f \<Rightarrow>
                                   Ret () (s1\<lparr>fork_db := set_validity env new_head True f,
                                              head := new_head\<rparr>)) of
                 Throw e s' \<Rightarrow>
                   if is_fc_exception e
                   then Throw e (s'\<lparr>fork_db := set_validity env new_head False (fork_db s')\<rparr>)
                   else Throw e s'
               | r \<Rightarrow> r)
         else if block_state_id new_head \<noteq> block_state_id (head s)
         then (case fetch_branch_from env (fork_db s)
                      (block_state_id new_head) (block_state_id (head s)) of
                 Inl e \<Rightarrow> Throw e s
               | Inr (first, second) \<Rightarrow>
                   bind (pop_branch env second s)
                     (\<lambda>u s1.
                        if second = [] then Undef
                        else if \<not> head_block_id s1 = previous (header (last second))
                        then Throw assert_exception s1
                        else switch_forks_replay env first second (length first) s1))
         else Ret () s)"

subsection \<open>Example states\<close>

text \<open>
  A small chain for the concrete instances below: the head is block 1, the state store
  is at revision 1, and the stores of the environment are counters. The transaction
  context of \<open>example_env\<close> throws when the deadline is before time \<open>5\<close>; otherwise
  it runs the actions in order, adds one to the token counter for each, and throws at an
  action named \<open>0\<close>, for which it has no handler.
\<close>

definition example_schedule :: producer_schedule_type where
  "example_schedule = \<lparr>version = 0, producers = [(1, 1)]\<rparr>"

definition empty_schedule :: producer_schedule_type where
  "empty_schedule = \<lparr>version = 0, producers = []\<rparr>"

definition example_block :: signed_block where
  "example_block =
     \<lparr>previous = 0, timestamp = 1000000, confirmed = 0, transaction_mroot = 0,
      action_mroot = 0, producer_signature = 0, transactions = [], block_extensions = []\<rparr>"

definition example_head :: block_state where
  "example_head =
     \<lparr>block_state_id = 1, block_num = 1,
      header = \<lparr>previous = 0, timestamp = 1000000, confirmed = 0, transaction_mroot = 0,
                action_mroot = 0, producer_signature = 0\<rparr>,
      dpos_irreversible_blocknum = 0, bft_irreversible_blocknum = 0,
      active_schedule = example_schedule, pending_schedule = empty_schedule,
      block = example_block, validated = True, in_current_chain = True, trxs = []\<rparr>"

definition example_gpo :: global_property_object where
  "example_gpo =
     \<lparr>proposed_schedule_block_num = None, proposed_schedule = empty_schedule,
      configuration = \<lparr>max_transaction_lifetime = 3600\<rparr>\<rparr>"

definition example_state :: "(nat, nat) controller_impl" where
  "example_state =
     \<lparr>db = \<lparr>objects = \<lparr>gpo = example_gpo, transaction_idx = [], block_summary = (\<lambda>n. 0)\<rparr>,
            revision = 1, undo_stack = []\<rparr>,
      blog = \<lparr>blog_head = None, blog_blocks = [example_block]\<rparr>,
      pending = None,
      head = example_head,
      fork_db = 0,
      token_db = \<lparr>tokens = 0, savepoints = []\<rparr>,
      unapplied_transactions = Map.empty,
      emitted = []\<rparr>"

definition example_exec ::
  "(nat, nat) controller_impl \<Rightarrow> transaction_metadata \<Rightarrow> time_point
     \<Rightarrow> (exception + action_receipt list) \<times> nat stores" where
  "example_exec s t deadline =
     (if deadline < 5 then (Inl deadline_exception, objects (db s), tokens (token_db s))
      else if 0 \<in> set (map name (actions (trx t)))
      then (Inl (fc_exception 1), objects (db s),
            tokens (token_db s) + length (takeWhile (\<lambda>a. name a \<noteq> 0) (actions (trx t))))
      else (Inr (map name (actions (trx t))), objects (db s),
            tokens (token_db s) + length (actions (trx t))))"

definition example_next :: "block_state \<Rightarrow> time_point \<Rightarrow> exception + block_state" where
  "example_next bs when =
     (if when \<le> timestamp (header bs) then Inl assert_exception
      else Inr (bs\<lparr>block_state_id := 0, block_num := block_num bs + 1,
                  header := (header bs)\<lparr>previous := block_state_id bs, timestamp := when\<rparr>,
                  block := example_block\<lparr>previous := block_state_id bs, timestamp := when\<rparr>,
                  validated := False, in_current_chain := False, trxs := []\<rparr>))"

definition example_env :: "(nat, nat) environment" where
  "example_env =
     \<lparr>ctx_construct = (\<lambda>s t. None),
      init_for_implicit_trx = (\<lambda>s t. (None, objects (db s), tokens (token_db s))),
      init_for_input_trx = (\<lambda>s t n. (None, objects (db s), tokens (token_db s))),
      exec = example_exec,
      finalize = (\<lambda>s t. (None, objects (db s), tokens (token_db s))),
      recover_keys = (\<lambda>t. Inr (set (signatures (trx t)))),
      satisfied = (\<lambda>toks keys a. key a \<in> keys),
      throws_at = (\<lambda>t k. None),
      make_metadata =
        (\<lambda>pt. Inr \<lparr>trx_id = 1, signed_id = 2, trx = pt, packed_trx = pt, accepted = False\<rparr>),
      generate_next = example_next,
      set_confirmed = (\<lambda>c bs. Inr bs),
      maybe_promote_pending = (\<lambda>bs. (False, bs)),
      sign = (\<lambda>bs signer. Inr (bs\<lparr>header := (header bs)\<lparr>producer_signature := signer 0\<rparr>\<rparr>)),
      header_id = (\<lambda>h. Suc (previous h)),
      num_from_id = (\<lambda>i. of_nat i),
      merkle = sum_list,
      action_digest = (\<lambda>a. a),
      receipt_digest = (\<lambda>r. 1),
      fork_db_head = (\<lambda>f. example_head),
      fork_db_get_block = (\<lambda>f i. None),
      fetch_branch_from = (\<lambda>f a b. Inl assert_exception),
      mark_in_current_chain = (\<lambda>bs flag f. Inr f),
      set_validity = (\<lambda>bs flag f. f),
      fork_db_add_state = (\<lambda>bs s. Ret bs s)\<rparr>"

definition example_trx :: transaction_metadata where
  "example_trx =
     \<lparr>trx_id = 1, signed_id = 2,
      trx = \<lparr>expiration = 2, ref_block_num = 0, ref_block_prefix = 0,
             actions = [\<lparr>name = 3, domain = 1, key = 9, data = 0\<rparr>], signatures = [9]\<rparr>,
      packed_trx = \<lparr>expiration = 2, ref_block_num = 0, ref_block_prefix = 0,
                    actions = [\<lparr>name = 3, domain = 1, key = 9, data = 0\<rparr>], signatures = [9]\<rparr>,
      accepted = False\<rparr>"

text \<open>The example state with a pending block at time \<open>2000000\<close>, as \<open>start_block\<close> leaves it.\<close>

definition example_pending :: pending_state where
  "example_pending =
     \<lparr>db_session = True, token_db_session = True,
      pending_block_state =
        example_head\<lparr>block_state_id := 0, block_num := 2,
          header := (header example_head)\<lparr>previous := 1, timestamp := 2000000\<rparr>,
          block := example_block\<lparr>previous := 1, timestamp := 2000000\<rparr>,
          validated := False, in_current_chain := True, trxs := []\<rparr>,
      pending_actions = []\<rparr>"

definition example_started :: "(nat, nat) controller_impl" where
  "example_started =
     example_state
       \<lparr>db := start_undo_session (db example_state),
        token_db := new_savepoint_session 1 (token_db example_state),
        pending := Some example_pending\<rparr>"

text \<open>
  The started example with a proposal already recorded for block \<open>2\<close> (the head's
  number plus one), and the example state, which has no pending block, with a proposal
  recorded for block \<open>7\<close>.
\<close>

definition example_proposed :: "(nat, nat) controller_impl" where
  "example_proposed =
     example_started
       \<lparr>db := modify_gpo
          (\<lambda>g. g\<lparr>proposed_schedule_block_num := Some 2,
                 proposed_schedule := \<lparr>version = 1, producers = [(2, 2)]\<rparr>\<rparr>)
          (db example_started)\<rparr>"

definition example_stale_proposal :: "(nat, nat) controller_impl" where
  "example_stale_proposal =
     example_state
       \<lparr>db := modify_gpo
          (\<lambda>g. g\<lparr>proposed_schedule_block_num := Some 7,
                 proposed_schedule := \<lparr>version = 1, producers = [(2, 2)]\<rparr>\<rparr>)
          (db example_state)\<rparr>"

text \<open>
  An environment in which the third append after the restore point throws, a started
  state with the example transaction waiting in \<open>unapplied_transactions\<close>, and the
  example transaction without its signature.
\<close>

definition example_fault_env :: "(nat, nat) environment" where
  "example_fault_env =
     example_env\<lparr>throws_at := (\<lambda>t k. if k = 2 then Some (fc_exception 7) else None)\<rparr>"

definition example_retry :: "(nat, nat) controller_impl" where
  "example_retry = example_started\<lparr>unapplied_transactions := [2 \<mapsto> example_trx]\<rparr>"

definition unsigned_trx :: transaction_metadata where
  "unsigned_trx = example_trx\<lparr>trx := (trx example_trx)\<lparr>signatures := []\<rparr>\<rparr>"

text \<open>A transaction of two actions, the second of which has no handler.\<close>

definition half_trx :: transaction_metadata where
  "half_trx =
     example_trx
       \<lparr>trx := (trx example_trx)
          \<lparr>actions := [\<lparr>name = 3, domain = 1, key = 9, data = 0\<rparr>,
                       \<lparr>name = 0, domain = 1, key = 9, data = 0\<rparr>]\<rparr>\<rparr>"

text \<open>
  The example state with a proposal recorded for block \<open>0\<close>, which is irreversible.
\<close>

definition example_promotable :: "(nat, nat) controller_impl" where
  "example_promotable =
     example_state
       \<lparr>db := modify_gpo
          (\<lambda>g. g\<lparr>proposed_schedule_block_num := Some 0,
                 proposed_schedule := \<lparr>version = 1, producers = [(2, 2)]\<rparr>\<rparr>)
          (db example_state)\<rparr>"

text \<open>
  A run on the example: a transaction that succeeds, one that throws after its first
  action, one whose signature is missing, and one that meets its deadline.
\<close>

definition example_calls :: "(transaction_metadata \<times> time_point \<times> bool) list" where
  "example_calls =
     [(example_trx, 10, False), (half_trx, 10, False), (unsigned_trx, 10, False),
      (example_trx, 3, True)]"

text \<open>
  A fork: the head is block 1 on top of block 0, and the fork database prefers a block
  \<open>bad_head\<close>, also on top of block 0, that carries a block extension and so cannot be
  applied.
\<close>

definition example_genesis :: block_state where
  "example_genesis = example_head\<lparr>block_state_id := 0, block_num := 0\<rparr>"

definition bad_head :: block_state where
  "bad_head =
     example_head\<lparr>block_state_id := 5,
       block := example_block\<lparr>block_extensions := [1]\<rparr>\<rparr>"

definition fork_env :: "(nat, nat) environment" where
  "fork_env =
     example_env
       \<lparr>fork_db_head := (\<lambda>f. bad_head),
        fork_db_get_block := (\<lambda>f i. if i = 0 then Some example_genesis else None),
        fetch_branch_from := (\<lambda>f a b. Inr ([bad_head], [example_head]))\<rparr>"

section \<open>Properties\<close>

subsection \<open>The example states\<close>

lemma example_started_fields:
  "pending example_started = Some example_pending"
  "head_block_num example_started = 1"
  "get_global_properties example_started = example_gpo"
  by (simp_all add: example_started_def example_state_def head_block_num_def example_head_def
      get_global_properties_def start_undo_session_def)

lemma example_pending_schedules:
  "pending_schedule (pending_block_state example_pending) = empty_schedule"
  "active_schedule (pending_block_state example_pending) = example_schedule"
  by (simp_all add: example_pending_def example_head_def)

lemma example_started_time: "pending_block_time example_started = Inr 2000000"
  by (simp add: pending_block_time_def example_started_def example_pending_def example_head_def)

lemma example_started_lifetime:
  "max_transaction_lifetime (configuration (get_global_properties example_started)) = 3600"
  by (simp add: get_global_properties_def example_started_def example_state_def
      start_undo_session_def example_gpo_def)

subsection \<open>validate_expiration\<close>

lemma validate_expiration_cases:
  "validate_expiration s t =
     (case pending_block_time s of
        Inl e \<Rightarrow> Inl e
      | Inr pbt \<Rightarrow>
          if time_point_of_sec (expiration t) < pbt then Inl expired_tx_exception
          else if pbt + fc_seconds (max_transaction_lifetime (configuration (get_global_properties s)))
                    < time_point_of_sec (expiration t)
          then Inl tx_exp_too_far_exception
          else Inr ())"
  by (auto simp: validate_expiration_def pending_block_time_def Let_def
      split: option.splits sum.splits)

lemma fc_seconds_nonneg: "0 \<le> fc_seconds n"
  by (simp add: fc_seconds_def)

text \<open>
  C8. \<^verbatim>\<open>validate_expiration\<close> succeeds exactly when the pending block time \<open>pbt\<close> exists and
  \<open>pbt \<le> expiration \<le> pbt + max_transaction_lifetime\<close>; it throws
  \<^verbatim>\<open>expired_tx_exception\<close> exactly when the expiration is below \<open>pbt\<close>, and
  \<^verbatim>\<open>tx_exp_too_far_exception\<close> exactly when it is above \<open>pbt + max_transaction_lifetime\<close>
  (times in microseconds, as the code compares them).
\<close>

theorem validate_expiration_iff:
  "(validate_expiration s t = Inr () \<longleftrightarrow>
      (\<exists>pbt. pending_block_time s = Inr pbt \<and> pbt \<le> time_point_of_sec (expiration t) \<and>
         time_point_of_sec (expiration t)
           \<le> pbt + fc_seconds (max_transaction_lifetime (configuration (get_global_properties s))))) \<and>
   (validate_expiration s t = Inl expired_tx_exception \<longleftrightarrow>
      (\<exists>pbt. pending_block_time s = Inr pbt \<and> time_point_of_sec (expiration t) < pbt)) \<and>
   (validate_expiration s t = Inl tx_exp_too_far_exception \<longleftrightarrow>
      (\<exists>pbt. pending_block_time s = Inr pbt \<and>
         pbt + fc_seconds (max_transaction_lifetime (configuration (get_global_properties s)))
           < time_point_of_sec (expiration t)))"
proof (cases "pending_block_time s")
  case (Inl e)
  then have "e = assert_exception"
    by (auto simp: pending_block_time_def split: option.splits)
  with Inl show ?thesis
    by (simp add: validate_expiration_cases)
next
  case (Inr pbt)
  have "0 \<le> fc_seconds (max_transaction_lifetime (configuration (get_global_properties s)))"
    by (rule fc_seconds_nonneg)
  with Inr show ?thesis
    by (auto simp: validate_expiration_cases)
qed

theorem validate_expiration_iff_witness:
  "validate_expiration example_started (trx example_trx) = Inr () \<and>
   validate_expiration example_started ((trx example_trx)\<lparr>expiration := 1\<rparr>)
     = Inl expired_tx_exception \<and>
   validate_expiration example_started ((trx example_trx)\<lparr>expiration := 3603\<rparr>)
     = Inl tx_exp_too_far_exception"
  using validate_expiration_iff [of example_started "trx example_trx"]
    validate_expiration_iff [of example_started "(trx example_trx)\<lparr>expiration := 1\<rparr>"]
    validate_expiration_iff [of example_started "(trx example_trx)\<lparr>expiration := 3603\<rparr>"]
  by (simp add: example_started_time example_started_lifetime example_trx_def
      time_point_of_sec_def fc_seconds_def)

subsection \<open>push_transaction\<close>

text \<open>
  C9. With a deadline equal to the default-constructed \<^verbatim>\<open>time_point\<close>,
  \<^verbatim>\<open>push_transaction\<close> throws an assertion for every transaction, in both modes and
  whatever the transaction context and the checker would do, and leaves the controller
  as it was.
\<close>

theorem push_transaction_uninitialized_deadline:
  "push_transaction env t time_point_default implicit s = Throw assert_exception s"
  by (simp add: push_transaction_def)

theorem push_transaction_uninitialized_deadline_witness:
  "push_transaction example_env example_trx 0 False example_started
     = Throw assert_exception example_started \<and>
   push_transaction example_env example_trx 0 True example_started
     = Throw assert_exception example_started"
  using push_transaction_uninitialized_deadline [of example_env example_trx False example_started]
    push_transaction_uninitialized_deadline [of example_env example_trx True example_started]
  by (simp add: time_point_default_def)

text \<open>The transaction context changes the two stores and nothing else.\<close>

lemma set_stores_set_stores [simp]: "set_stores st2 (set_stores st1 s) = set_stores st2 s"
  by (simp add: set_stores_def)

lemma set_stores_fields [simp]:
  "pending (set_stores st s) = pending s"
  "unapplied_transactions (set_stores st s) = unapplied_transactions s"
  "head (set_stores st s) = head s"
  "blog (set_stores st s) = blog s"
  "fork_db (set_stores st s) = fork_db s"
  "emitted (set_stores st s) = emitted s"
  "revision (db (set_stores st s)) = revision (db s)"
  "undo_stack (db (set_stores st s)) = undo_stack (db s)"
  "savepoints (token_db (set_stores st s)) = savepoints (token_db s)"
  "objects (db (set_stores st s)) = fst st"
  "tokens (token_db (set_stores st s)) = snd st"
  by (simp_all add: set_stores_def)

lemma block_restore_same:
  "block_restore (make_block_restore_point p) p = p"
  by (simp add: block_restore_def make_block_restore_point_def)

lemma block_restore_receipt:
  "block_restore (make_block_restore_point p) (fst (push_receipt pt st p)) = p"
  by (simp add: block_restore_def make_block_restore_point_def push_receipt_def Let_def)

lemma block_restore_receipt_trxs:
  "block_restore (make_block_restore_point p)
     ((fst (push_receipt pt st p))
        \<lparr>pending_block_state :=
           (pending_block_state (fst (push_receipt pt st p)))
             \<lparr>trxs := trxs (pending_block_state (fst (push_receipt pt st p))) @ [t]\<rparr>\<rparr>) = p"
  by (simp add: block_restore_def make_block_restore_point_def push_receipt_def Let_def)

lemma push_transaction_record_Throw:
  assumes "push_transaction_record env t implicit acts p0 (s, trace) = Throw e (s', trace')"
    and "pending s = Some p0"
  shows "s'\<lparr>pending := map_option (block_restore (make_block_restore_point p0)) (pending s')\<rparr> = s"
  using assms
  by (cases implicit)
     (auto simp: push_transaction_record_def Let_def set_pending_def block_restore_same
        block_restore_receipt block_restore_receipt_trxs
        split: option.splits if_splits)

lemma push_transaction_record_not_Undef:
  "push_transaction_record env t implicit acts p0 st \<noteq> Undef"
  by (auto simp: push_transaction_record_def Let_def split: option.splits prod.splits)

lemma push_transaction_record_Ret:
  assumes "push_transaction_record env t implicit acts p0 (s, trace) = Ret tr (s', trace')"
  shows "\<exists>p'. pending s' = Some p' \<and>
           transactions (block (pending_block_state p'))
             = transactions (block (pending_block_state p0))
               @ (if implicit then [] else [\<lparr>status = executed, receipt_trx = packed_trx t\<rparr>]) \<and>
           trxs (pending_block_state p')
             = trxs (pending_block_state p0) @ (if implicit then [] else [t\<lparr>accepted := True\<rparr>]) \<and>
           pending_actions p' = pending_actions p0 @ acts"
    and "unapplied_transactions s'
           = (if implicit then unapplied_transactions s
              else (unapplied_transactions s)(signed_id t := None))"
    and "db s' = db s" and "token_db s' = token_db s" and "head s' = head s"
    and "blog s' = blog s" and "fork_db s' = fork_db s"
    and "tr = trace\<lparr>receipt := Some \<lparr>status = executed\<rparr>\<rparr>" and "trace' = tr"
  using assms
  by (cases implicit;
      auto simp: push_transaction_record_def Let_def set_pending_def emit_def mark_accepted_def
        push_receipt_def split: option.splits if_splits)+

lemma push_transaction_guarded_Throw:
  assumes "push_transaction_guarded env t implicit acts (s, trace) = Throw e (s', trace')"
  shows "s' = s"
proof -
  from assms obtain p0 where p0: "pending s = Some p0"
    by (auto simp: push_transaction_guarded_def split: option.splits)
  from assms p0 obtain s1 where
    r: "push_transaction_record env t implicit acts p0 (s, trace) = Throw e (s1, trace')"
    and s': "s' = s1\<lparr>pending := map_option (block_restore (make_block_restore_point p0)) (pending s1)\<rparr>"
    by (auto simp: push_transaction_guarded_def Let_def split: outcome.splits prod.splits)
  from push_transaction_record_Throw [OF r p0] s' show ?thesis by simp
qed

lemma push_transaction_guarded_Ret:
  assumes "push_transaction_guarded env t implicit acts (s, trace) = Ret tr (s', trace')"
  shows "\<exists>p0. pending s = Some p0 \<and>
           push_transaction_record env t implicit acts p0 (s, trace) = Ret tr (s', trace')"
  using assms
  by (auto simp: push_transaction_guarded_def Let_def split: option.splits outcome.splits prod.splits)

lemma push_transaction_guarded_Undef:
  "push_transaction_guarded env t implicit acts (s, trace) = Undef \<longleftrightarrow> pending s = None"
  by (auto simp: push_transaction_guarded_def Let_def push_transaction_record_not_Undef
      split: option.splits outcome.splits prod.splits)

lemma push_transaction_try_Throw:
  assumes "push_transaction_try env t deadline implicit (s, trace) = Throw e (s', trace')"
  shows "\<exists>st. s' = set_stores st s"
  using assms
  by (auto simp: push_transaction_try_def Let_def
      dest!: push_transaction_guarded_Throw
      split: option.splits prod.splits sum.splits if_splits)

lemma push_transaction_try_Ret:
  assumes "push_transaction_try env t deadline implicit (s, trace) = Ret tr (s', trace')"
  shows "\<exists>st1 st acts p0. pending s = Some p0 \<and>
           fst (exec env (set_stores st1 s) t deadline) = Inr acts \<and>
           push_transaction_record env t implicit acts p0 (set_stores st s, trace)
             = Ret tr (s', trace')"
proof -
  obtain e1 st1 where i: "(if implicit then init_for_implicit_trx env s t
        else init_for_input_trx env s t (length (signatures (trx t)))) = (e1, st1)"
    by (cases "if implicit then init_for_implicit_trx env s t
        else init_for_input_trx env s t (length (signatures (trx t)))") auto
  obtain r2 st2 where x: "exec env (set_stores st1 s) t deadline = (r2, st2)"
    by (cases "exec env (set_stores st1 s) t deadline") auto
  obtain e3 st3 where f: "finalize env (set_stores st2 s) t = (e3, st3)"
    by (cases "finalize env (set_stores st2 s) t") auto
  from assms i x f obtain acts where acts: "r2 = Inr acts"
    and g: "push_transaction_guarded env t implicit acts (set_stores st3 s, trace)
              = Ret tr (s', trace')"
    by (auto simp: push_transaction_try_def Let_def
        split: option.splits sum.splits if_splits)
  from push_transaction_guarded_Ret [OF g] obtain p0 where
    "pending s = Some p0"
    "push_transaction_record env t implicit acts p0 (set_stores st3 s, trace) = Ret tr (s', trace')"
    by auto
  moreover from x acts have "fst (exec env (set_stores st1 s) t deadline) = Inr acts"
    by simp
  ultimately show ?thesis by blast
qed

lemma push_transaction_try_Undef:
  assumes "push_transaction_try env t deadline implicit (s, trace) = Undef"
  shows "pending s = None"
  using assms
  by (auto simp: push_transaction_try_def Let_def push_transaction_guarded_Undef
      split: option.splits prod.splits sum.splits if_splits)

lemma push_transaction_Ret_cases:
  assumes "push_transaction env t deadline implicit s = Ret tr s'"
  shows "(\<exists>e st. except tr = Some e \<and> is_fc_exception e \<and>
            s' = (if e = deadline_exception then set_stores st s
                  else (set_stores st s)\<lparr>unapplied_transactions :=
                          (unapplied_transactions s)(signed_id t := None)\<rparr>)) \<or>
         (\<exists>st1 st acts p0 trace'. except tr = None \<and> pending s = Some p0 \<and>
            fst (exec env (set_stores st1 s) t deadline) = Inr acts \<and>
            push_transaction_record env t implicit acts p0
              (set_stores st s, \<lparr>trace_id = trx_id t, receipt = None, except = None\<rparr>)
              = Ret tr (s', trace'))"
proof -
  let ?tr0 = "\<lparr>trace_id = trx_id t, receipt = None, except = None\<rparr>"
  from assms have ne: "deadline \<noteq> time_point_default" and c: "ctx_construct env s t = None"
    by (auto simp: push_transaction_def split: if_splits option.splits)
  show ?thesis
  proof (cases "push_transaction_try env t deadline implicit (s, ?tr0)")
    case (Ret tr1 st1)
    obtain s1 trace1 where st1: "st1 = (s1, trace1)" by (cases st1)
    from assms ne c Ret st1 have eq: "tr1 = tr" "s1 = s'"
      by (auto simp: push_transaction_def)
    from push_transaction_try_Ret [OF Ret [unfolded st1]] obtain st1' st acts p0 where
      p0: "pending s = Some p0" and
      ex: "fst (exec env (set_stores st1' s) t deadline) = Inr acts" and
      r: "push_transaction_record env t implicit acts p0 (set_stores st s, ?tr0) = Ret tr1 (s1, trace1)"
      by blast
    from push_transaction_record_Ret(8) [OF r] have "except tr1 = None" by simp
    with p0 r ex eq show ?thesis by blast
  next
    case (Throw e st1)
    obtain s1 trace1 where st1: "st1 = (s1, trace1)" by (cases st1)
    from push_transaction_try_Throw [OF Throw [unfolded st1]] obtain st where
      s1: "s1 = set_stores st s" by blast
    from assms ne c Throw st1 have fc: "is_fc_exception e"
      and tr: "tr = trace1\<lparr>except := Some e\<rparr>"
      and s': "s' = (if \<not> failure_is_subjective e
                     then s1\<lparr>unapplied_transactions :=
                              (unapplied_transactions s1)(signed_id t := None)\<rparr>
                     else s1)"
      by (auto simp: push_transaction_def split: if_splits)
    from tr have "except tr = Some e" by simp
    moreover from s' s1 have
      "s' = (if e = deadline_exception then set_stores st s
             else (set_stores st s)\<lparr>unapplied_transactions :=
                     (unapplied_transactions s)(signed_id t := None)\<rparr>)"
      by (simp add: failure_is_subjective_def)
    ultimately show ?thesis using fc by blast
  next
    case Undef
    with assms ne c show ?thesis by (simp add: push_transaction_def)
  qed
qed

lemma push_transaction_Throw_cases:
  assumes "push_transaction env t deadline implicit s = Throw e s'"
  shows "\<exists>st. s' = set_stores st s \<or> s' = s"
  using assms
  by (auto simp: push_transaction_def
      dest!: push_transaction_try_Throw
      split: if_splits option.splits outcome.splits prod.splits)

lemma push_transaction_pending_not_Undef:
  assumes "pending s = Some p"
  shows "push_transaction env t deadline implicit s \<noteq> Undef"
proof
  assume u: "push_transaction env t deadline implicit s = Undef"
  then have "push_transaction_try env t deadline implicit
               (s, \<lparr>trace_id = trx_id t, receipt = None, except = None\<rparr>) = Undef"
    by (auto simp: push_transaction_def split: if_splits option.splits outcome.splits prod.splits)
  from push_transaction_try_Undef [OF this] assms show False by simp
qed

text \<open>
  C3. Whenever \<^verbatim>\<open>push_transaction\<close> fails with a pending block there, by returning a
  trace with \<open>except\<close> set or by throwing, and so in particular when it fails after the
  restore point was installed, the pending state is what it was: the receipts of the
  pending block, \<^verbatim>\<open>trxs\<close> and \<^verbatim>\<open>_actions\<close> are back at their sizes and contents. On success
  the receipt and the metadata (for an input transaction) and the executed actions are
  the new ends of the three lists.
\<close>

theorem push_transaction_footprint:
  assumes "pending s = Some p"
  shows "case push_transaction env t deadline implicit s of
           Ret tr s' \<Rightarrow>
             (case except tr of
                Some e \<Rightarrow> pending s' = Some p
              | None \<Rightarrow>
                  (\<exists>p' st acts. pending s' = Some p' \<and>
                     fst (exec env (set_stores st s) t deadline) = Inr acts \<and>
                     transactions (block (pending_block_state p'))
                       = transactions (block (pending_block_state p))
                         @ (if implicit then []
                            else [\<lparr>status = executed, receipt_trx = packed_trx t\<rparr>]) \<and>
                     trxs (pending_block_state p')
                       = trxs (pending_block_state p)
                         @ (if implicit then [] else [t\<lparr>accepted := True\<rparr>]) \<and>
                     pending_actions p' = pending_actions p @ acts))
         | Throw e s' \<Rightarrow> pending s' = Some p
         | Undef \<Rightarrow> False"
proof (cases "push_transaction env t deadline implicit s")
  case (Ret tr s')
  from push_transaction_Ret_cases [OF Ret] show ?thesis
  proof (elim disjE exE conjE)
    fix e st
    assume "except tr = Some e"
      and "s' = (if e = deadline_exception then set_stores st s
                 else (set_stores st s)\<lparr>unapplied_transactions :=
                         (unapplied_transactions s)(signed_id t := None)\<rparr>)"
    with Ret assms show ?thesis by simp
  next
    fix st1 st acts p0 trace'
    assume ex: "except tr = None" and p0: "pending s = Some p0"
      and acts: "fst (exec env (set_stores st1 s) t deadline) = Inr acts"
      and r: "push_transaction_record env t implicit acts p0
                (set_stores st s, \<lparr>trace_id = trx_id t, receipt = None, except = None\<rparr>)
                = Ret tr (s', trace')"
    from p0 assms have "p0 = p" by simp
    with push_transaction_record_Ret(1) [OF r] acts have
      "\<exists>p' st acts. pending s' = Some p' \<and>
         fst (exec env (set_stores st s) t deadline) = Inr acts \<and>
         transactions (block (pending_block_state p'))
           = transactions (block (pending_block_state p))
             @ (if implicit then [] else [\<lparr>status = executed, receipt_trx = packed_trx t\<rparr>]) \<and>
         trxs (pending_block_state p')
           = trxs (pending_block_state p) @ (if implicit then [] else [t\<lparr>accepted := True\<rparr>]) \<and>
         pending_actions p' = pending_actions p @ acts"
      by blast
    with ex Ret show ?thesis by simp
  qed
next
  case (Throw e s')
  from push_transaction_Throw_cases [OF Throw] assms Throw show ?thesis by auto
next
  case Undef
  with push_transaction_pending_not_Undef [OF assms] show ?thesis by simp
qed

lemma example_fault_push:
  "case push_transaction example_fault_env example_trx 10 False example_started of
     Ret tr s' \<Rightarrow> except tr = Some (fc_exception 7) \<and> tokens (token_db s') = 1
   | Throw e s' \<Rightarrow> False
   | Undef \<Rightarrow> False"
  by (simp add: push_transaction_def push_transaction_try_def push_transaction_guarded_def
      push_transaction_record_def example_fault_env_def example_env_def example_exec_def
      example_trx_def check_authorization_def time_point_default_def Let_def
      example_started_fields set_stores_def set_pending_def push_receipt_def
      failure_is_subjective_def example_started_def example_state_def
      new_savepoint_session_def)

lemma example_push:
  "case push_transaction example_env example_trx 10 False example_started of
     Ret tr s' \<Rightarrow> except tr = None \<and> tokens (token_db s') = 1
   | Throw e s' \<Rightarrow> False
   | Undef \<Rightarrow> False"
  by (simp add: push_transaction_def push_transaction_try_def push_transaction_guarded_def
      push_transaction_record_def example_env_def example_exec_def
      example_trx_def check_authorization_def time_point_default_def Let_def
      example_started_fields set_stores_def set_pending_def push_receipt_def
      emit_def mark_accepted_def example_started_def example_state_def
      new_savepoint_session_def)

lemma example_exec_acts:
  "fst (exec example_env s example_trx 10) = Inr acts \<Longrightarrow> acts = [3]"
  by (simp add: example_env_def example_exec_def example_trx_def)

theorem push_transaction_footprint_witness:
  "(case push_transaction example_fault_env example_trx 10 False example_started of
      Ret tr s' \<Rightarrow> except tr = Some (fc_exception 7) \<and> tokens (token_db s') = 1 \<and>
                   pending s' = Some example_pending
    | Throw e s' \<Rightarrow> False
    | Undef \<Rightarrow> False) \<and>
   (case push_transaction example_env example_trx 10 False example_started of
      Ret tr s' \<Rightarrow>
        except tr = None \<and> tokens (token_db s') = 1 \<and>
        (case pending s' of
           None \<Rightarrow> False
         | Some p' \<Rightarrow>
             transactions (block (pending_block_state p'))
               = [\<lparr>status = executed, receipt_trx = packed_trx example_trx\<rparr>] \<and>
             trxs (pending_block_state p') = [example_trx\<lparr>accepted := True\<rparr>] \<and>
             pending_actions p' = [3])
    | Throw e s' \<Rightarrow> False
    | Undef \<Rightarrow> False)"
proof -
  have p: "transactions (block (pending_block_state example_pending)) = []"
    "trxs (pending_block_state example_pending) = []"
    "pending_actions example_pending = []"
    by (simp_all add: example_pending_def example_block_def)
  show ?thesis
    using push_transaction_footprint
        [OF example_started_fields(1), of example_fault_env example_trx 10 False]
      push_transaction_footprint
        [OF example_started_fields(1), of example_env example_trx 10 False]
      example_fault_push example_push
    by (auto simp: p dest!: example_exec_acts split: outcome.splits option.splits)
qed

text \<open>
  C4. When \<^verbatim>\<open>push_transaction\<close> on an input transaction returns its trace, the entry of
  \<^verbatim>\<open>unapplied_transactions\<close> under the transaction's \<^verbatim>\<open>signed_id\<close> is erased if the
  transaction succeeded or the captured exception is not subjective, and the map is
  untouched if the captured exception is subjective; an exception is subjective exactly
  when it is a \<^verbatim>\<open>deadline_exception\<close>.
\<close>

theorem push_transaction_unapplied:
  assumes "push_transaction env t deadline False s = Ret tr s'"
  shows "unapplied_transactions s' =
           (case except tr of
              None \<Rightarrow> (unapplied_transactions s)(signed_id t := None)
            | Some e \<Rightarrow>
                if failure_is_subjective e then unapplied_transactions s
                else (unapplied_transactions s)(signed_id t := None)) \<and>
         (failure_is_subjective e \<longleftrightarrow> e = deadline_exception)"
proof -
  from push_transaction_Ret_cases [OF assms]
  have "unapplied_transactions s' =
           (case except tr of
              None \<Rightarrow> (unapplied_transactions s)(signed_id t := None)
            | Some e \<Rightarrow>
                if failure_is_subjective e then unapplied_transactions s
                else (unapplied_transactions s)(signed_id t := None))"
  proof (elim disjE exE conjE)
    fix e st
    assume "except tr = Some e"
      and "s' = (if e = deadline_exception then set_stores st s
                 else (set_stores st s)\<lparr>unapplied_transactions :=
                         (unapplied_transactions s)(signed_id t := None)\<rparr>)"
    then show ?thesis by (simp add: failure_is_subjective_def)
  next
    fix st1 st acts p0 trace'
    assume ex: "except tr = None"
      and r: "push_transaction_record env t False acts p0
                (set_stores st s, \<lparr>trace_id = trx_id t, receipt = None, except = None\<rparr>)
                = Ret tr (s', trace')"
    from push_transaction_record_Ret(2) [OF r] ex show ?thesis by simp
  qed
  then show ?thesis by (simp add: failure_is_subjective_def)
qed

lemma example_retry_unapplied: "unapplied_transactions example_retry = [2 \<mapsto> example_trx]"
  by (simp add: example_retry_def)

lemma example_retry_push:
  "\<exists>tr s'. push_transaction example_env example_trx 10 False example_retry = Ret tr s' \<and>
     except tr = None"
  "\<exists>tr s'. push_transaction example_env example_trx 3 False example_retry = Ret tr s' \<and>
     except tr = Some deadline_exception"
  "\<exists>tr s'. push_transaction example_env unsigned_trx 10 False example_retry = Ret tr s' \<and>
     except tr = Some tx_missing_sigs"
  by (simp_all add: push_transaction_def push_transaction_try_def push_transaction_guarded_def
      push_transaction_record_def example_env_def example_exec_def unsigned_trx_def
      example_trx_def check_authorization_def time_point_default_def Let_def
      example_started_fields set_stores_def set_pending_def push_receipt_def
      emit_def mark_accepted_def example_retry_def failure_is_subjective_def)

theorem push_transaction_unapplied_witness:
  "(case push_transaction example_env example_trx 10 False example_retry of
      Ret tr s' \<Rightarrow> except tr = None \<and> unapplied_transactions s' = Map.empty
    | Throw e s' \<Rightarrow> False | Undef \<Rightarrow> False) \<and>
   (case push_transaction example_env example_trx 3 False example_retry of
      Ret tr s' \<Rightarrow> except tr = Some deadline_exception \<and>
                   unapplied_transactions s' = [2 \<mapsto> example_trx]
    | Throw e s' \<Rightarrow> False | Undef \<Rightarrow> False) \<and>
   (case push_transaction example_env unsigned_trx 10 False example_retry of
      Ret tr s' \<Rightarrow> except tr = Some tx_missing_sigs \<and> unapplied_transactions s' = Map.empty
    | Throw e s' \<Rightarrow> False | Undef \<Rightarrow> False)"
proof -
  have sid: "signed_id example_trx = 2" "signed_id unsigned_trx = 2"
    by (simp_all add: example_trx_def unsigned_trx_def)
  from example_retry_push(1) obtain tr1 s1 where
    r1: "push_transaction example_env example_trx 10 False example_retry = Ret tr1 s1"
    and e1: "except tr1 = None" by blast
  from example_retry_push(2) obtain tr2 s2 where
    r2: "push_transaction example_env example_trx 3 False example_retry = Ret tr2 s2"
    and e2: "except tr2 = Some deadline_exception" by blast
  from example_retry_push(3) obtain tr3 s3 where
    r3: "push_transaction example_env unsigned_trx 10 False example_retry = Ret tr3 s3"
    and e3: "except tr3 = Some tx_missing_sigs" by blast
  from push_transaction_unapplied [OF r1] e1 have "unapplied_transactions s1 = Map.empty"
    by (simp add: example_retry_unapplied sid)
  moreover from push_transaction_unapplied [OF r2, of deadline_exception] e2
  have "unapplied_transactions s2 = [2 \<mapsto> example_trx]"
    by (simp add: example_retry_unapplied sid)
  moreover from push_transaction_unapplied [OF r3, of tx_missing_sigs] e3
  have "unapplied_transactions s3 = Map.empty"
    by (simp add: example_retry_unapplied sid)
  ultimately show ?thesis using r1 r2 r3 e1 e2 e3 by simp
qed

subsection \<open>set_proposed_producers\<close>

text \<open>
  The schedule in effect for a pending block: the pending schedule if it has producers,
  the active one otherwise. This is the schedule \<^verbatim>\<open>set_proposed_producers\<close> compares with
  and whose version it increments.
\<close>

lemma set_proposed_producers_pending:
  assumes "pending s = Some p"
  shows "set_proposed_producers prods s =
     (let gp = get_global_properties s;
          bs = pending_block_state p;
          cur = (if producers (pending_schedule bs) = [] then active_schedule bs
                 else pending_schedule bs)
      in if (case proposed_schedule_block_num gp of
               None \<Rightarrow> True
             | Some n \<Rightarrow> n = head_block_num s + 1 \<and> prods \<noteq> producers (proposed_schedule gp))
            \<and> prods \<noteq> producers cur
         then Ret True
                (s\<lparr>db := modify_gpo
                     (\<lambda>g. g\<lparr>proposed_schedule_block_num := Some (head_block_num s + 1),
                            proposed_schedule := \<lparr>version = version cur + 1, producers = prods\<rparr>\<rparr>)
                     (db s)\<rparr>)
         else Ret False s)"
  using assms
  by (auto simp: set_proposed_producers_def Let_def split: option.splits)

text \<open>
  C7, as the code has it. With a pending block, \<^verbatim>\<open>set_proposed_producers\<close> returns true if
  and only if (a) no proposal is recorded for a block other than head+1, (b) the list
  differs from the producers of a proposal already recorded for head+1, and (c) the list
  differs from the producers of the schedule in effect (pending if non-empty, else
  active). It then records the proposal for block head+1 with the version of the
  schedule in effect plus one and changes nothing else; otherwise it returns false and
  the controller is unchanged.
\<close>

theorem set_proposed_producers_iff:
  assumes "pending s = Some p"
    and "cur = (if producers (pending_schedule (pending_block_state p)) = []
                then active_schedule (pending_block_state p)
                else pending_schedule (pending_block_state p))"
    and "gp = get_global_properties s"
  shows "((\<exists>s'. set_proposed_producers prods s = Ret True s') \<longleftrightarrow>
            (proposed_schedule_block_num gp = None \<or>
             proposed_schedule_block_num gp = Some (head_block_num s + 1) \<and>
             prods \<noteq> producers (proposed_schedule gp)) \<and>
            prods \<noteq> producers cur) \<and>
         (\<forall>s'. set_proposed_producers prods s = Ret True s' \<longrightarrow>
            s' = s\<lparr>db := modify_gpo
                    (\<lambda>g. g\<lparr>proposed_schedule_block_num := Some (head_block_num s + 1),
                           proposed_schedule := \<lparr>version = version cur + 1, producers = prods\<rparr>\<rparr>)
                    (db s)\<rparr>) \<and>
         (set_proposed_producers prods s = Ret False s \<or>
          (\<exists>s'. set_proposed_producers prods s = Ret True s'))"
  using assms(2,3)
  by (auto simp: set_proposed_producers_pending [OF assms(1)] Let_def split: option.splits)

theorem set_proposed_producers_iff_witness:
  "set_proposed_producers [(2, 2)] example_started
     = Ret True
         (example_started
            \<lparr>db := modify_gpo
               (\<lambda>g. g\<lparr>proposed_schedule_block_num := Some 2,
                      proposed_schedule := \<lparr>version = 1, producers = [(2, 2)]\<rparr>\<rparr>)
               (db example_started)\<rparr>) \<and>
   set_proposed_producers [(1, 1)] example_started = Ret False example_started"
  using set_proposed_producers_iff [OF example_started_fields(1) refl refl, of "[(2, 2)]"]
    set_proposed_producers_iff [OF example_started_fields(1) refl refl, of "[(1, 1)]"]
  by (auto simp: example_started_fields example_pending_schedules example_gpo_def
      empty_schedule_def example_schedule_def)

text \<open>
  The claim as stated leaves out (b): with the proposal \<open>[(2, 2)]\<close> already recorded
  for block head+1 = 2 and the schedule \<open>[(1, 1)]\<close> in effect, proposing \<open>[(2, 2)]\<close>
  again meets both conditions of the claim and returns false.
\<close>

theorem set_proposed_producers_counterexample:
  "pending example_proposed = Some example_pending \<and>
   proposed_schedule_block_num (get_global_properties example_proposed)
     = Some (head_block_num example_proposed + 1) \<and>
   producers (pending_schedule (pending_block_state example_pending)) = [] \<and>
   [(2, 2)] \<noteq> producers (active_schedule (pending_block_state example_pending)) \<and>
   set_proposed_producers [(2, 2)] example_proposed = Ret False example_proposed"
  by (simp add: set_proposed_producers_def example_proposed_def example_started_def
      example_state_def example_pending_def example_head_def example_schedule_def
      empty_schedule_def get_global_properties_def head_block_num_def modify_gpo_def
      start_undo_session_def example_gpo_def)

text \<open>
  C10, as the code has it. \<^verbatim>\<open>set_proposed_producers\<close> reads the pending block state unless
  it returns early because a proposal is recorded for another block, or for head+1 with
  the same producers. With no pending state it returns false in those two cases and
  otherwise dereferences the empty optional; with a pending state it never runs into
  undefined behaviour.
\<close>

theorem set_proposed_producers_pending_read:
  "(pending s = None \<longrightarrow>
      set_proposed_producers prods s =
        (if \<exists>n. proposed_schedule_block_num (get_global_properties s) = Some n \<and>
                (n \<noteq> head_block_num s + 1 \<or>
                 prods = producers (proposed_schedule (get_global_properties s)))
         then Ret False s else Undef)) \<and>
   (pending s \<noteq> None \<longrightarrow> set_proposed_producers prods s \<noteq> Undef)"
  by (auto simp: set_proposed_producers_def Let_def split: option.splits)

theorem set_proposed_producers_pending_read_witness:
  "set_proposed_producers [(2, 2)] example_state = Undef \<and>
   set_proposed_producers [(2, 2)] example_started \<noteq> Undef"
  using set_proposed_producers_pending_read [of example_state "[(2, 2)]"]
    set_proposed_producers_pending_read [of example_started "[(2, 2)]"]
  by (simp add: example_started_fields example_state_def get_global_properties_def
      example_gpo_def)

text \<open>
  The read is not unconditional: with no pending state and a proposal recorded for
  block \<open>7\<close>, the call returns false before it reaches the pending state.
\<close>

theorem set_proposed_producers_pending_read_counterexample:
  "pending example_stale_proposal = None \<and>
   set_proposed_producers [(3, 3)] example_stale_proposal = Ret False example_stale_proposal"
  by (simp add: set_proposed_producers_def example_stale_proposal_def example_state_def
      get_global_properties_def head_block_num_def modify_gpo_def example_head_def
      example_gpo_def)

subsection \<open>start_block\<close>

lemma clear_expired_input_transactions_Ret:
  assumes "pending s = Some p"
  shows "\<exists>s'. clear_expired_input_transactions s = Ret () s' \<and>
           pending s' = pending s \<and> gpo (objects (db s')) = gpo (objects (db s)) \<and>
           revision (db s') = revision (db s) \<and> undo_stack (db s') = undo_stack (db s) \<and>
           token_db s' = token_db s"
  using assms
  by (simp add: clear_expired_input_transactions_def pending_block_time_def)

lemma start_block_schedule_Ret:
  assumes "start_block_schedule env confirm_block_count p s = Ret u s'"
  shows "\<exists>bs1 bs2 was_pending_promoted.
           set_confirmed env confirm_block_count ((pending_block_state p)\<lparr>in_current_chain := True\<rparr>)
             = Inr bs1 \<and>
           maybe_promote_pending env bs1 = (was_pending_promoted, bs2) \<and>
           (if promotes_proposed (gpo (objects (db s))) bs2 was_pending_promoted
            then pending s' = Some (p\<lparr>pending_block_state :=
                                        set_new_producers (proposed_schedule (gpo (objects (db s)))) bs2\<rparr>) \<and>
                 gpo (objects (db s'))
                   = (gpo (objects (db s)))
                       \<lparr>proposed_schedule_block_num := None,
                        proposed_schedule := schedule_clear (proposed_schedule (gpo (objects (db s))))\<rparr>
            else pending s' = Some (p\<lparr>pending_block_state := bs2\<rparr>) \<and>
                 gpo (objects (db s')) = gpo (objects (db s)))"
proof -
  from assms obtain bs1 where
    c: "set_confirmed env confirm_block_count ((pending_block_state p)\<lparr>in_current_chain := True\<rparr>)
          = Inr bs1"
    by (auto simp: start_block_schedule_def Let_def split: sum.splits)
  obtain w bs2 where m: "maybe_promote_pending env bs1 = (w, bs2)"
    by (cases "maybe_promote_pending env bs1") auto
  show ?thesis
  proof (cases "promotes_proposed (gpo (objects (db s))) bs2 w")
    case True
    let ?s2 = "(set_pending
                 (p\<lparr>pending_block_state :=
                      set_new_producers (proposed_schedule (gpo (objects (db s)))) bs2\<rparr>) s)
               \<lparr>db := modify_gpo
                  (\<lambda>g. g\<lparr>proposed_schedule_block_num := None,
                         proposed_schedule := schedule_clear (proposed_schedule g)\<rparr>)
                  (db s)\<rparr>"
    from assms c m True have r: "clear_expired_input_transactions ?s2 = Ret u s'"
      by (simp add: start_block_schedule_def Let_def get_global_properties_def set_pending_def)
    have "pending ?s2 = Some (p\<lparr>pending_block_state :=
            set_new_producers (proposed_schedule (gpo (objects (db s)))) bs2\<rparr>)"
      by (simp add: set_pending_def)
    from clear_expired_input_transactions_Ret [OF this] r
    have "pending s' = pending ?s2" "gpo (objects (db s')) = gpo (objects (db ?s2))"
      by auto
    with True c m show ?thesis
      by (simp add: set_pending_def modify_gpo_def)
  next
    case False
    let ?s2 = "set_pending (p\<lparr>pending_block_state := bs2\<rparr>) s"
    from assms c m False have r: "clear_expired_input_transactions ?s2 = Ret u s'"
      by (simp add: start_block_schedule_def Let_def get_global_properties_def set_pending_def)
    have "pending ?s2 = Some (p\<lparr>pending_block_state := bs2\<rparr>)"
      by (simp add: set_pending_def)
    from clear_expired_input_transactions_Ret [OF this] r
    have "pending s' = pending ?s2" "gpo (objects (db s')) = gpo (objects (db ?s2))"
      by auto
    with False c m show ?thesis
      by (simp add: set_pending_def)
  qed
qed

text \<open>
  C6. When \<^verbatim>\<open>start_block\<close> returns, let \<open>bs2\<close> be the new pending block state after
  \<^verbatim>\<open>set_confirmed\<close> and \<^verbatim>\<open>maybe_promote_pending\<close>, and \<open>was_pending_promoted\<close> what the latter
  returned. If \<^verbatim>\<open>proposed_schedule_block_num\<close> is set, its value is at most
  \<open>dpos_irreversible_blocknum bs2\<close>, the pending schedule of \<open>bs2\<close> has no producers and
  \<open>was_pending_promoted\<close> is false, then the pending block state is \<open>bs2\<close> after
  \<^verbatim>\<open>set_new_producers\<close> with the proposed schedule, which is now its pending schedule,
  and the proposal in the global properties is cleared: no block number, no producers.
  If one of the four fails, the pending block state is \<open>bs2\<close> and the global properties
  are as before.
\<close>

theorem start_block_promotes_proposed:
  assumes "start_block env when confirm_block_count s = Ret u s'"
  shows "\<exists>bs0 bs1 bs2 was_pending_promoted p'.
           generate_next env (head s) when = Inr bs0 \<and>
           set_confirmed env confirm_block_count (bs0\<lparr>in_current_chain := True\<rparr>) = Inr bs1 \<and>
           maybe_promote_pending env bs1 = (was_pending_promoted, bs2) \<and>
           pending s' = Some p' \<and>
           (if (\<exists>n. proposed_schedule_block_num (get_global_properties s) = Some n \<and>
                    n \<le> dpos_irreversible_blocknum bs2) \<and>
               producers (pending_schedule bs2) = [] \<and>
               \<not> was_pending_promoted
            then pending_block_state p'
                   = set_new_producers (proposed_schedule (get_global_properties s)) bs2 \<and>
                 pending_schedule (pending_block_state p')
                   = proposed_schedule (get_global_properties s) \<and>
                 get_global_properties s'
                   = (get_global_properties s)
                       \<lparr>proposed_schedule_block_num := None,
                        proposed_schedule :=
                          schedule_clear (proposed_schedule (get_global_properties s))\<rparr> \<and>
                 producers (proposed_schedule (get_global_properties s')) = []
            else pending_block_state p' = bs2 \<and>
                 get_global_properties s' = get_global_properties s)"
proof -
  let ?s1 = "s\<lparr>token_db := new_savepoint_session (revision (db s)) (token_db s),
               db := start_undo_session (db s)\<rparr>"
  from assms obtain bs0 where g: "generate_next env (head s) when = Inr bs0"
    by (auto simp: start_block_def Let_def split: if_splits sum.splits)
  let ?p = "\<lparr>db_session = True, token_db_session = True,
             pending_block_state = bs0, pending_actions = []\<rparr>"
  from assms g have r: "start_block_schedule env confirm_block_count ?p ?s1 = Ret u s'"
    by (auto simp: start_block_def Let_def split: if_splits outcome.splits)
  have o: "gpo (objects (db ?s1)) = get_global_properties s"
    by (simp add: start_undo_session_def get_global_properties_def)
  from start_block_schedule_Ret [OF r] obtain bs1 bs2 w where
    c: "set_confirmed env confirm_block_count (bs0\<lparr>in_current_chain := True\<rparr>) = Inr bs1"
    and m: "maybe_promote_pending env bs1 = (w, bs2)"
    and i: "if promotes_proposed (get_global_properties s) bs2 w
            then pending s' = Some (?p\<lparr>pending_block_state :=
                     set_new_producers (proposed_schedule (get_global_properties s)) bs2\<rparr>) \<and>
                 gpo (objects (db s'))
                   = (get_global_properties s)
                       \<lparr>proposed_schedule_block_num := None,
                        proposed_schedule := schedule_clear (proposed_schedule (get_global_properties s))\<rparr>
            else pending s' = Some (?p\<lparr>pending_block_state := bs2\<rparr>) \<and>
                 gpo (objects (db s')) = get_global_properties s"
    unfolding o by auto
  have pp: "promotes_proposed (get_global_properties s) bs2 w \<longleftrightarrow>
          (\<exists>n. proposed_schedule_block_num (get_global_properties s) = Some n \<and>
               n \<le> dpos_irreversible_blocknum bs2) \<and>
          producers (pending_schedule bs2) = [] \<and> \<not> w"
    by (auto simp: promotes_proposed_def split: option.splits)
  from i have "\<exists>p'. pending s' = Some p' \<and>
           (if (\<exists>n. proposed_schedule_block_num (get_global_properties s) = Some n \<and>
                    n \<le> dpos_irreversible_blocknum bs2) \<and>
               producers (pending_schedule bs2) = [] \<and> \<not> w
            then pending_block_state p'
                   = set_new_producers (proposed_schedule (get_global_properties s)) bs2 \<and>
                 pending_schedule (pending_block_state p')
                   = proposed_schedule (get_global_properties s) \<and>
                 get_global_properties s'
                   = (get_global_properties s)
                       \<lparr>proposed_schedule_block_num := None,
                        proposed_schedule :=
                          schedule_clear (proposed_schedule (get_global_properties s))\<rparr> \<and>
                 producers (proposed_schedule (get_global_properties s')) = []
            else pending_block_state p' = bs2 \<and>
                 get_global_properties s' = get_global_properties s)"
    unfolding pp [symmetric]
    by (cases "promotes_proposed (get_global_properties s) bs2 w")
       (simp_all add: set_new_producers_def schedule_clear_def get_global_properties_def)
  with g c m show ?thesis by blast
qed

lemma example_start_block:
  "\<exists>s'. start_block example_env 2000000 0 example_promotable = Ret () s'"
  "\<exists>s'. start_block example_env 2000000 0 example_state = Ret () s'"
  by (simp_all add: start_block_def start_block_schedule_def example_promotable_def
      example_state_def example_env_def example_next_def example_head_def Let_def
      clear_expired_input_transactions_def pending_block_time_def set_pending_def
      modify_gpo_def start_undo_session_def promotes_proposed_def get_global_properties_def
      example_gpo_def empty_schedule_def)

lemma example_env_next:
  "generate_next example_env example_head 2000000 = Inr bs0 \<Longrightarrow>
     set_confirmed example_env 0 (bs0\<lparr>in_current_chain := True\<rparr>) = Inr bs1 \<Longrightarrow>
     maybe_promote_pending example_env bs1 = (w, bs2) \<Longrightarrow>
     bs2 = pending_block_state example_pending \<and> \<not> w"
  by (auto simp: example_env_def example_next_def example_head_def example_pending_def)

theorem start_block_promotes_proposed_witness:
  "(case start_block example_env 2000000 0 example_promotable of
      Ret u s' \<Rightarrow>
        (case pending s' of
           None \<Rightarrow> False
         | Some p' \<Rightarrow>
             pending_block_state p'
               = (pending_block_state example_pending)
                   \<lparr>pending_schedule := \<lparr>version = 1, producers = [(2, 2)]\<rparr>\<rparr>) \<and>
        proposed_schedule_block_num (get_global_properties s') = None \<and>
        proposed_schedule (get_global_properties s') = \<lparr>version = 0, producers = []\<rparr>
    | Throw e s' \<Rightarrow> False
    | Undef \<Rightarrow> False) \<and>
   (case start_block example_env 2000000 0 example_state of
      Ret u s' \<Rightarrow>
        (case pending s' of
           None \<Rightarrow> False
         | Some p' \<Rightarrow> pending_block_state p' = pending_block_state example_pending) \<and>
        get_global_properties s' = example_gpo
    | Throw e s' \<Rightarrow> False
    | Undef \<Rightarrow> False)"
proof -
  from example_start_block(1) obtain s1 where
    r1: "start_block example_env 2000000 0 example_promotable = Ret () s1" by blast
  from example_start_block(2) obtain s2 where
    r2: "start_block example_env 2000000 0 example_state = Ret () s2" by blast
  have g1: "get_global_properties example_promotable
              = example_gpo\<lparr>proposed_schedule_block_num := Some 0,
                             proposed_schedule := \<lparr>version = 1, producers = [(2, 2)]\<rparr>\<rparr>"
    and h1: "head example_promotable = example_head"
    by (simp_all add: example_promotable_def example_state_def get_global_properties_def
        modify_gpo_def)
  have g2: "get_global_properties example_state = example_gpo"
    and h2: "head example_state = example_head"
    by (simp_all add: example_state_def get_global_properties_def)
  have e: "producers (pending_schedule (pending_block_state example_pending)) = []"
    by (simp add: example_pending_schedules empty_schedule_def)
  from start_block_promotes_proposed [OF r1]
  have "(case pending s1 of
           None \<Rightarrow> False
         | Some p' \<Rightarrow>
             pending_block_state p'
               = (pending_block_state example_pending)
                   \<lparr>pending_schedule := \<lparr>version = 1, producers = [(2, 2)]\<rparr>\<rparr>) \<and>
        proposed_schedule_block_num (get_global_properties s1) = None \<and>
        proposed_schedule (get_global_properties s1) = \<lparr>version = 0, producers = []\<rparr>"
    unfolding g1 h1
    by (auto dest!: example_env_next
        simp: e example_gpo_def set_new_producers_def schedule_clear_def)
  moreover from start_block_promotes_proposed [OF r2]
  have "(case pending s2 of
           None \<Rightarrow> False
         | Some p' \<Rightarrow> pending_block_state p' = pending_block_state example_pending) \<and>
        get_global_properties s2 = example_gpo"
    unfolding g2 h2
    by (auto dest!: example_env_next simp: e example_gpo_def)
  ultimately show ?thesis using r1 r2 by simp
qed

subsection \<open>on_irreversible\<close>

lemma on_irreversible_finish_Ret:
  "on_irreversible_finish bs s =
     Ret () (s\<lparr>emitted := emitted s @ [irreversible_block bs],
               db := commit (uint (block_num bs)) (db s),
               token_db := pop_savepoints (uint (block_num bs)) (token_db s)\<rparr>)"
  by (simp add: on_irreversible_finish_def emit_def Let_def)

lemma read_head_blocks [simp]: "blog_blocks (read_head l) = blog_blocks l"
  by (simp add: read_head_def)

text \<open>
  C5. \<^verbatim>\<open>on_irreversible\<close> first makes sure the block log has read its head, \<open>log_head\<close>.
  If it returns, then: when \<open>block_num bs - 1\<close> is the number of \<open>log_head\<close>, the linkage
  assertion held and the block is the new last entry and head of the log; in every other
  case, the gap included, the log's sequence is what it was. In each case the signal
  \<^verbatim>\<open>irreversible_block\<close> was fired, the state store was committed at \<open>block_num bs\<close> and the
  savepoints of the token store were popped up to the same number. If it does not
  return, an assertion failed (no log head, no linkage, or the id check of the gap
  branch) and neither the log's sequence nor the stores nor the signals changed.
\<close>

theorem on_irreversible_effect:
  "case on_irreversible env bs s of
     Ret u s' \<Rightarrow>
       (\<exists>log_head.
          blog_head (if blog_head (blog s) = None then read_head (blog s) else blog s)
            = Some log_head \<and>
          (if block_num bs - 1 = signed_block_num env log_head
           then previous (block bs) = signed_block_id env log_head \<and>
                blog_blocks (blog s') = blog_blocks (blog s) @ [block bs] \<and>
                blog_head (blog s') = Some (block bs)
           else blog_blocks (blog s') = blog_blocks (blog s) \<and>
                blog_head (blog s') = Some log_head)) \<and>
       emitted s' = emitted s @ [irreversible_block bs] \<and>
       db s' = commit (uint (block_num bs)) (db s) \<and>
       token_db s' = pop_savepoints (uint (block_num bs)) (token_db s)
   | Throw e s' \<Rightarrow>
       e = assert_exception \<and>
       (case blog_head (if blog_head (blog s) = None then read_head (blog s) else blog s) of
          None \<Rightarrow> True
        | Some log_head \<Rightarrow>
            (block_num bs - 1 = signed_block_num env log_head \<and>
             previous (block bs) \<noteq> signed_block_id env log_head) \<or>
            (block_num bs - 1 > signed_block_num env log_head \<and>
             block_num bs = signed_block_num env log_head \<and>
             block_state_id bs \<noteq> signed_block_id env log_head)) \<and>
       blog_blocks (blog s') = blog_blocks (blog s) \<and>
       emitted s' = emitted s \<and> db s' = db s \<and> token_db s' = token_db s
   | Undef \<Rightarrow> False"
proof (cases "blog_head (if blog_head (blog s) = None then read_head (blog s) else blog s)")
  case None
  then show ?thesis
    by (auto simp: on_irreversible_def Let_def split: if_splits)
next
  case (Some log_head)
  then show ?thesis
    by (cases "blog_head (blog s) = None")
       (auto simp: on_irreversible_def Let_def on_irreversible_finish_Ret blog_append_def)
qed

theorem on_irreversible_effect_witness:
  "(case on_irreversible example_env (pending_block_state example_pending) example_state of
      Ret u s' \<Rightarrow>
        blog_blocks (blog s') = [example_block, block (pending_block_state example_pending)] \<and>
        emitted s' = [irreversible_block (pending_block_state example_pending)] \<and>
        db s' = commit 2 (db example_state) \<and>
        token_db s' = pop_savepoints 2 (token_db example_state)
    | Throw e s' \<Rightarrow> False
    | Undef \<Rightarrow> False) \<and>
   (case on_irreversible example_env ((pending_block_state example_pending)\<lparr>block_num := 5\<rparr>)
           example_state of
      Ret u s' \<Rightarrow>
        blog_blocks (blog s') = [example_block] \<and>
        emitted s' = [irreversible_block ((pending_block_state example_pending)\<lparr>block_num := 5\<rparr>)] \<and>
        db s' = commit 5 (db example_state) \<and>
        token_db s' = pop_savepoints 5 (token_db example_state)
    | Throw e s' \<Rightarrow> False
    | Undef \<Rightarrow> False)"
proof -
  have h: "blog_head (if blog_head (blog example_state) = None
                      then read_head (blog example_state) else blog example_state)
             = Some example_block"
    "blog_blocks (blog example_state) = [example_block]"
    "emitted example_state = []"
    by (simp_all add: example_state_def read_head_def)
  have n: "signed_block_num example_env example_block = 1"
    "signed_block_id example_env example_block = 1"
    by (simp_all add: signed_block_num_def signed_block_id_def example_env_def example_block_def
        signed_block_header.truncate_def)
  have b: "block_num (pending_block_state example_pending) = 2"
    "previous (block (pending_block_state example_pending)) = 1"
    by (simp_all add: example_pending_def example_block_def)
  have r: "on_irreversible example_env (pending_block_state example_pending) example_state
             \<noteq> Throw e s'"
    "on_irreversible example_env ((pending_block_state example_pending)\<lparr>block_num := 5\<rparr>)
        example_state \<noteq> Throw e s'" for e s'
    by (simp_all add: on_irreversible_def Let_def h n b on_irreversible_finish_Ret
        example_state_def read_head_def)
  show ?thesis
    using on_irreversible_effect
        [where env = example_env and bs = "pending_block_state example_pending"
           and s = example_state]
      on_irreversible_effect
        [where env = example_env
           and bs = "(pending_block_state example_pending)\<lparr>block_num := 5\<rparr>"
           and s = example_state]
      r
    by (auto simp: h n b split: outcome.splits)
qed

subsection \<open>Rolling the stores back\<close>

lemma undo_start_undo_session: "undo (start_undo_session d) = d"
  by (simp add: undo_def start_undo_session_def)

lemma rollback_new_savepoint_session:
  "rollback_to_latest_savepoint (new_savepoint_session n t) = t"
  by (simp add: rollback_to_latest_savepoint_def new_savepoint_session_def)

lemma undo_objects:
  "undo_stack d \<noteq> [] \<Longrightarrow> undo (d\<lparr>objects := objs\<rparr>) = undo d"
  by (cases "undo_stack d") (auto simp: undo_def)

lemma rollback_tokens:
  "savepoints t \<noteq> [] \<Longrightarrow>
     rollback_to_latest_savepoint (t\<lparr>tokens := toks\<rparr>) = rollback_to_latest_savepoint t"
  by (cases "savepoints t") (auto simp: rollback_to_latest_savepoint_def)

lemma start_block_Throw:
  assumes "start_block env when confirm_block_count s = Throw e s'"
  shows "s' = s"
proof (cases "pending s = None \<and> revision (db s) = uint (block_num (head s))")
  case False
  with assms show ?thesis
    by (auto simp: start_block_def split: if_splits)
next
  case True
  let ?s1 = "s\<lparr>token_db := new_savepoint_session (revision (db s)) (token_db s),
               db := start_undo_session (db s)\<rparr>"
  have d: "drop_sessions True True ?s1 = s"
    by (simp add: drop_sessions_def undo_start_undo_session rollback_new_savepoint_session)
  show ?thesis
  proof (cases "generate_next env (head s) when")
    case (Inl e')
    with assms True d show ?thesis
      by (simp add: start_block_def Let_def)
  next
    case (Inr bs)
    let ?p = "\<lparr>db_session = True, token_db_session = True,
               pending_block_state = bs, pending_actions = []\<rparr>"
    from assms True Inr obtain s2 where
      t: "start_block_schedule env confirm_block_count ?p ?s1 = Throw e s2"
      and s': "s' = pending_reset s2"
      by (auto simp: start_block_def Let_def split: outcome.splits)
    from t have "\<exists>p'. s2 = set_pending (?p\<lparr>pending_block_state := p'\<rparr>) ?s1"
      by (auto simp: start_block_schedule_def Let_def clear_expired_input_transactions_def
          pending_block_time_def set_pending_def
          split: sum.splits prod.splits if_splits)
    then obtain p' where "s2 = set_pending (?p\<lparr>pending_block_state := p'\<rparr>) ?s1" ..
    then have "pending_reset s2 = drop_sessions True True (?s1\<lparr>pending := None\<rparr>)"
      by (simp add: pending_reset_def set_pending_def)
    also have "?s1\<lparr>pending := None\<rparr> = ?s1" using True by simp
    finally show ?thesis using s' d by simp
  qed
qed

lemma start_block_Ret_sessions:
  assumes "start_block env when confirm_block_count s = Ret u s1"
  shows "\<exists>p. pending s1 = Some p \<and> db_session p \<and> token_db_session p"
    and "undo_stack (db s1) \<noteq> []" and "undo (db s1) = db s"
    and "savepoints (token_db s1) \<noteq> []"
    and "rollback_to_latest_savepoint (token_db s1) = token_db s"
proof -
  let ?s1 = "s\<lparr>token_db := new_savepoint_session (revision (db s)) (token_db s),
               db := start_undo_session (db s)\<rparr>"
  from assms obtain bs where g: "generate_next env (head s) when = Inr bs"
    by (auto simp: start_block_def Let_def split: if_splits sum.splits)
  let ?p = "\<lparr>db_session = True, token_db_session = True,
             pending_block_state = bs, pending_actions = []\<rparr>"
  from assms g have r: "start_block_schedule env confirm_block_count ?p ?s1 = Ret u s1"
    by (auto simp: start_block_def Let_def split: if_splits outcome.splits)
  then have "\<exists>p' objs. pending s1 = Some (?p\<lparr>pending_block_state := p'\<rparr>) \<and>
               db s1 = (start_undo_session (db s))\<lparr>objects := objs\<rparr> \<and>
               token_db s1 = new_savepoint_session (revision (db s)) (token_db s)"
    by (auto simp: start_block_schedule_def Let_def clear_expired_input_transactions_def
        pending_block_time_def set_pending_def modify_gpo_def
        split: sum.splits prod.splits if_splits)
  then obtain p' objs where p: "pending s1 = Some (?p\<lparr>pending_block_state := p'\<rparr>)"
    and d: "db s1 = (start_undo_session (db s))\<lparr>objects := objs\<rparr>"
    and k: "token_db s1 = new_savepoint_session (revision (db s)) (token_db s)"
    by blast
  from p show "\<exists>p. pending s1 = Some p \<and> db_session p \<and> token_db_session p" by simp
  from d show "undo_stack (db s1) \<noteq> []" by (simp add: start_undo_session_def)
  have "undo_stack (start_undo_session (db s)) \<noteq> []"
    by (simp add: start_undo_session_def)
  with d show "undo (db s1) = db s"
    by (simp add: undo_objects undo_start_undo_session)
  from k show "savepoints (token_db s1) \<noteq> []" by (simp add: new_savepoint_session_def)
  from k show "rollback_to_latest_savepoint (token_db s1) = token_db s"
    by (simp add: rollback_new_savepoint_session)
qed

lemma push_transaction_record_Ret_sessions:
  assumes "push_transaction_record env t implicit acts p0 (s, trace) = Ret tr (s', trace')"
  shows "\<exists>p'. pending s' = Some p' \<and> db_session p' = db_session p0 \<and>
           token_db_session p' = token_db_session p0"
  using assms
  by (cases implicit;
      auto simp: push_transaction_record_def Let_def set_pending_def emit_def mark_accepted_def
        push_receipt_def split: option.splits if_splits)

lemma set_stores_db: "\<exists>objs. db (set_stores st s) = (db s)\<lparr>objects := objs\<rparr>"
  by (auto simp: set_stores_def)

lemma set_stores_token_db: "\<exists>toks. token_db (set_stores st s) = (token_db s)\<lparr>tokens := toks\<rparr>"
  by (auto simp: set_stores_def)

lemma push_transaction_Ret_sessions:
  assumes r: "push_transaction env t deadline implicit s = Ret tr s'"
  shows "\<exists>objs. db s' = (db s)\<lparr>objects := objs\<rparr>"
    and "\<exists>toks. token_db s' = (token_db s)\<lparr>tokens := toks\<rparr>"
    and "pending s = Some p \<Longrightarrow>
           \<exists>p'. pending s' = Some p' \<and> db_session p' = db_session p \<and>
             token_db_session p' = token_db_session p"
proof -
  from push_transaction_Ret_cases [OF r]
  have "\<exists>st. db s' = db (set_stores st s) \<and> token_db s' = token_db (set_stores st s)"
  proof (elim disjE exE conjE)
    fix e st
    assume "s' = (if e = deadline_exception then set_stores st s
               else (set_stores st s)\<lparr>unapplied_transactions :=
                       (unapplied_transactions s)(signed_id t := None)\<rparr>)"
    then have "db s' = db (set_stores st s) \<and> token_db s' = token_db (set_stores st s)"
      by simp
    then show ?thesis by blast
  next
    fix st1 st acts p0 trace'
    assume "push_transaction_record env t implicit acts p0
              (set_stores st s, \<lparr>trace_id = trx_id t, receipt = None, except = None\<rparr>)
              = Ret tr (s', trace')"
    from push_transaction_record_Ret(3,4) [OF this] show ?thesis by blast
  qed
  then obtain st where "db s' = db (set_stores st s)" "token_db s' = token_db (set_stores st s)"
    by blast
  with set_stores_db [of st s] set_stores_token_db [of st s]
  show "\<exists>objs. db s' = (db s)\<lparr>objects := objs\<rparr>"
    and "\<exists>toks. token_db s' = (token_db s)\<lparr>tokens := toks\<rparr>"
    by simp_all
  assume p: "pending s = Some p"
  from push_transaction_Ret_cases [OF r]
  show "\<exists>p'. pending s' = Some p' \<and> db_session p' = db_session p \<and>
             token_db_session p' = token_db_session p"
  proof (elim disjE exE conjE)
    fix e st
    assume "s' = (if e = deadline_exception then set_stores st s
               else (set_stores st s)\<lparr>unapplied_transactions :=
                       (unapplied_transactions s)(signed_id t := None)\<rparr>)"
    with p show ?thesis by simp
  next
    fix st1 st acts p0 trace'
    assume "pending s = Some p0"
      and "push_transaction_record env t implicit acts p0
              (set_stores st s, \<lparr>trace_id = trx_id t, receipt = None, except = None\<rparr>)
              = Ret tr (s', trace')"
    with p push_transaction_record_Ret_sessions [of env t implicit acts p0 "set_stores st s"]
    show ?thesis by auto
  qed
qed

lemma push_transaction_Throw_sessions:
  assumes r: "push_transaction env t deadline implicit s = Throw e s'"
  shows "\<exists>objs. db s' = (db s)\<lparr>objects := objs\<rparr>"
    and "\<exists>toks. token_db s' = (token_db s)\<lparr>tokens := toks\<rparr>"
    and "pending s' = pending s"
proof -
  from push_transaction_Throw_cases [OF r] obtain st where
    c: "s' = set_stores st s \<or> s' = s" by blast
  have "db s = (db s)\<lparr>objects := objects (db s)\<rparr>"
    "token_db s = (token_db s)\<lparr>tokens := tokens (token_db s)\<rparr>"
    by simp_all
  with c set_stores_db [of st s] set_stores_token_db [of st s]
  show "\<exists>objs. db s' = (db s)\<lparr>objects := objs\<rparr>"
    and "\<exists>toks. token_db s' = (token_db s)\<lparr>tokens := toks\<rparr>"
    by metis+
  from c show "pending s' = pending s" by auto
qed

text \<open>
  The pending block of \<open>s\<close> is open on the stores \<open>d\<close> and \<open>k\<close>: both sessions are live,
  and dropping them gives \<open>d\<close> and \<open>k\<close> back.
\<close>

lemma push_transactions_open:
  assumes "push_transactions env calls s = Some s2"
    and "\<exists>p. pending s = Some p \<and> db_session p \<and> token_db_session p"
    and "undo_stack (db s) \<noteq> []" and "undo (db s) = d"
    and "savepoints (token_db s) \<noteq> []" and "rollback_to_latest_savepoint (token_db s) = k"
  shows "(\<exists>p. pending s2 = Some p \<and> db_session p \<and> token_db_session p) \<and>
         undo_stack (db s2) \<noteq> [] \<and> undo (db s2) = d \<and>
         savepoints (token_db s2) \<noteq> [] \<and> rollback_to_latest_savepoint (token_db s2) = k"
  using assms
proof (induction calls arbitrary: s)
  case Nil
  then show ?case by simp
next
  case (Cons c calls)
  obtain t deadline implicit where c: "c = (t, deadline, implicit)" by (cases c)
  from Cons.prems(2) obtain p where p: "pending s = Some p" "db_session p" "token_db_session p"
    by blast
  have step: "?case" if
    o: "\<exists>objs. db s' = (db s)\<lparr>objects := objs\<rparr>" and
    k: "\<exists>toks. token_db s' = (token_db s)\<lparr>tokens := toks\<rparr>" and
    q: "\<exists>p'. pending s' = Some p' \<and> db_session p' = db_session p \<and>
             token_db_session p' = token_db_session p" and
    n: "push_transactions env calls s' = Some s2" for s'
  proof (rule Cons.IH [OF n])
    from q p show "\<exists>p. pending s' = Some p \<and> db_session p \<and> token_db_session p" by auto
    from o Cons.prems(3) show "undo_stack (db s') \<noteq> []" by auto
    from o Cons.prems(3,4) show "undo (db s') = d" by (auto simp: undo_objects)
    from k Cons.prems(5) show "savepoints (token_db s') \<noteq> []" by auto
    from k Cons.prems(5,6) show "rollback_to_latest_savepoint (token_db s') = k"
      by (auto simp: rollback_tokens)
  qed
  show ?case
  proof (cases "push_transaction env t deadline implicit s")
    case (Ret tr s')
    with Cons.prems(1) c have "push_transactions env calls s' = Some s2" by simp
    with push_transaction_Ret_sessions [OF Ret] p(1) show ?thesis by (intro step) auto
  next
    case (Throw e s')
    with Cons.prems(1) c have "push_transactions env calls s' = Some s2" by simp
    with push_transaction_Throw_sessions [OF Throw] p(1) show ?thesis by (intro step) auto
  next
    case Undef
    with Cons.prems(1) c show ?thesis by simp
  qed
qed

lemma abort_block_open:
  assumes "\<exists>p. pending s = Some p \<and> db_session p \<and> token_db_session p"
  shows "db (abort_block s) = undo (db s)"
    and "token_db (abort_block s) = rollback_to_latest_savepoint (token_db s)"
    and "pending (abort_block s) = None"
  using assms
  by (auto simp: abort_block_def pending_reset_def drop_sessions_def)

lemma push_transactions_defined:
  assumes "pending s = Some p"
  shows "\<exists>s2. push_transactions env calls s = Some s2"
  using assms
proof (induction calls arbitrary: s p)
  case Nil
  then show ?case by simp
next
  case (Cons c calls)
  obtain t deadline implicit where c: "c = (t, deadline, implicit)" by (cases c)
  show ?case
  proof (cases "push_transaction env t deadline implicit s")
    case (Ret tr s')
    from push_transaction_Ret_sessions(3) [OF Ret Cons.prems] obtain p' where
      "pending s' = Some p'" by blast
    from Cons.IH [OF this] Ret c show ?thesis by simp
  next
    case (Throw e s')
    from push_transaction_Throw_sessions(3) [OF Throw] Cons.prems
    have "pending s' = Some p" by simp
    from Cons.IH [OF this] Throw c show ?thesis by simp
  next
    case Undef
    with push_transaction_pending_not_Undef [OF Cons.prems] show ?thesis by simp
  qed
qed

text \<open>
  C2, as the code has it. (a) If \<^verbatim>\<open>start_block\<close> throws, the controller, and so both
  stores, is what it was before the call. (b) If \<^verbatim>\<open>start_block\<close> returned, any run of
  \<^verbatim>\<open>push_transaction\<close> calls on the pending block goes through, each call returning or
  throwing, and \<^verbatim>\<open>abort_block\<close> after it leaves both stores exactly as they were before
  \<^verbatim>\<open>start_block\<close>, and no pending state. (c) With no pending state \<^verbatim>\<open>abort_block\<close>
  changes nothing.
\<close>

theorem abort_block_restores_stores:
  "(start_block env when confirm_block_count s = Throw e s' \<longrightarrow> s' = s) \<and>
   (start_block env when confirm_block_count s = Ret u s1 \<longrightarrow>
      (\<exists>s2. push_transactions env calls s1 = Some s2 \<and>
         db (abort_block s2) = db s \<and> token_db (abort_block s2) = token_db s \<and>
         pending (abort_block s2) = None)) \<and>
   (pending s = None \<longrightarrow> abort_block s = s)"
proof (intro conjI impI)
  assume "start_block env when confirm_block_count s = Throw e s'"
  then show "s' = s" by (rule start_block_Throw)
next
  assume r: "start_block env when confirm_block_count s = Ret u s1"
  from start_block_Ret_sessions(1) [OF r] obtain p where "pending s1 = Some p" by blast
  from push_transactions_defined [OF this] obtain s2 where
    n: "push_transactions env calls s1 = Some s2" by blast
  from push_transactions_open [OF n start_block_Ret_sessions [OF r]]
  have o: "\<exists>p. pending s2 = Some p \<and> db_session p \<and> token_db_session p"
    and d: "undo (db s2) = db s"
    and k: "rollback_to_latest_savepoint (token_db s2) = token_db s"
    by simp_all
  from abort_block_open [OF o] d k n
  show "\<exists>s2. push_transactions env calls s1 = Some s2 \<and>
         db (abort_block s2) = db s \<and> token_db (abort_block s2) = token_db s \<and>
         pending (abort_block s2) = None"
    by simp
next
  assume "pending s = None"
  then show "abort_block s = s" by (simp add: abort_block_def)
qed

lemma example_start_push:
  "case start_block example_env 2000000 0 example_promotable of
     Ret u s1 \<Rightarrow>
       (case push_transactions example_env example_calls s1 of
          None \<Rightarrow> False
        | Some s2 \<Rightarrow> tokens (token_db s2) = 2)
   | Throw e s' \<Rightarrow> False
   | Undef \<Rightarrow> False"
  by (simp add: start_block_def start_block_schedule_def example_promotable_def
      example_state_def example_env_def example_next_def example_head_def Let_def
      clear_expired_input_transactions_def pending_block_time_def set_pending_def
      modify_gpo_def start_undo_session_def promotes_proposed_def get_global_properties_def
      example_gpo_def empty_schedule_def
      push_transaction_def push_transaction_try_def push_transaction_guarded_def
      push_transaction_record_def example_exec_def unsigned_trx_def half_trx_def
      example_calls_def example_trx_def check_authorization_def time_point_default_def
      set_stores_def push_receipt_def emit_def mark_accepted_def failure_is_subjective_def
      new_savepoint_session_def)

lemma example_start_throw:
  "start_block example_env 500000 0 example_state = Throw assert_exception example_state"
  by (simp add: start_block_def example_state_def example_env_def example_next_def
      example_head_def Let_def drop_sessions_def undo_start_undo_session
      rollback_new_savepoint_session)

theorem abort_block_restores_stores_witness:
  "start_block example_env 500000 0 example_state = Throw assert_exception example_state \<and>
   (case start_block example_env 2000000 0 example_promotable of
      Ret u s1 \<Rightarrow>
        (case push_transactions example_env example_calls s1 of
           None \<Rightarrow> False
         | Some s2 \<Rightarrow>
             tokens (token_db s2) = 2 \<and>
             db (abort_block s2) = db example_promotable \<and>
             token_db (abort_block s2) = token_db example_promotable \<and>
             pending (abort_block s2) = None)
    | Throw e s' \<Rightarrow> False
    | Undef \<Rightarrow> False) \<and>
   abort_block example_state = example_state"
proof -
  have n: "pending example_state = None" by (simp add: example_state_def)
  from example_start_push obtain s1 s2 where
    r: "start_block example_env 2000000 0 example_promotable = Ret () s1"
    and c: "push_transactions example_env example_calls s1 = Some s2"
    and k: "tokens (token_db s2) = 2"
    by (auto split: outcome.splits option.splits)
  from abort_block_restores_stores
      [THEN conjunct2, THEN conjunct1, rule_format, OF r, of example_calls] c
  have "db (abort_block s2) = db example_promotable \<and>
        token_db (abort_block s2) = token_db example_promotable \<and>
        pending (abort_block s2) = None"
    by simp
  moreover from abort_block_restores_stores [THEN conjunct2, THEN conjunct2, rule_format, OF n]
  have "abort_block example_state = example_state" by simp
  moreover from abort_block_restores_stores [THEN conjunct1, rule_format, OF example_start_throw]
  have "example_state = example_state" .
  ultimately show ?thesis using r c k example_start_throw by simp
qed

text \<open>
  The claim as stated compares the stores before and after the operation itself. For
  \<^verbatim>\<open>abort_block\<close> they differ whenever the pending block has changed a store: here
  \<^verbatim>\<open>start_block\<close> has cleared the proposal inside the pending session, and \<^verbatim>\<open>abort_block\<close>
  brings it back. For \<^verbatim>\<open>push_transaction\<close> they differ when the transaction context had
  changed a store before it threw: here the first action of \<open>half_trx\<close> has been
  applied when the second one throws, and \<^verbatim>\<open>push_transaction\<close> returns the trace with the
  token store changed.
\<close>

theorem abort_block_counterexample:
  "(case start_block example_env 2000000 0 example_promotable of
      Ret u s1 \<Rightarrow>
        proposed_schedule_block_num (gpo (objects (db s1))) = None \<and>
        proposed_schedule_block_num (gpo (objects (db (abort_block s1)))) = Some 0 \<and>
        db (abort_block s1) \<noteq> db s1
    | Throw e s' \<Rightarrow> False
    | Undef \<Rightarrow> False) \<and>
   (case push_transaction example_env half_trx 10 False example_started of
      Ret tr s' \<Rightarrow>
        except tr = Some (fc_exception 1) \<and>
        tokens (token_db example_started) = 0 \<and> tokens (token_db s') = 1 \<and>
        token_db s' \<noteq> token_db example_started
    | Throw e s' \<Rightarrow> False
    | Undef \<Rightarrow> False)"
proof -
  have "case start_block example_env 2000000 0 example_promotable of
     Ret u s1 \<Rightarrow>
       proposed_schedule_block_num (gpo (objects (db s1))) = None \<and>
       proposed_schedule_block_num (gpo (objects (db (abort_block s1)))) = Some 0
   | Throw e s' \<Rightarrow> False
   | Undef \<Rightarrow> False"
    by (simp add: start_block_def start_block_schedule_def example_promotable_def
        example_state_def example_env_def example_next_def example_head_def Let_def
        clear_expired_input_transactions_def pending_block_time_def set_pending_def
        modify_gpo_def start_undo_session_def promotes_proposed_def get_global_properties_def
        example_gpo_def empty_schedule_def abort_block_def pending_reset_def drop_sessions_def
        undo_def)
  moreover
  have "case push_transaction example_env half_trx 10 False example_started of
     Ret tr s' \<Rightarrow>
       except tr = Some (fc_exception 1) \<and>
       tokens (token_db example_started) = 0 \<and> tokens (token_db s') = 1
   | Throw e s' \<Rightarrow> False
   | Undef \<Rightarrow> False"
    by (simp add: push_transaction_def push_transaction_try_def example_env_def
        example_exec_def half_trx_def example_trx_def check_authorization_def
        time_point_default_def Let_def set_stores_def failure_is_subjective_def
        example_started_def example_state_def new_savepoint_session_def)
  ultimately show ?thesis
    by (auto split: outcome.splits)
qed

subsection \<open>maybe_switch_forks\<close>

lemma invalidate_rest_end:
  "invalidate_rest env first b f = Some (f', ritr) \<Longrightarrow> ritr = 0"
  by (induction b arbitrary: f) (auto split: option.splits)

text \<open>
  After the loop that marks the rest of the new branch invalid, \<^verbatim>\<open>ritr\<close> is
  \<^verbatim>\<open>branches.first.rend()\<close>, so \<^verbatim>\<open>(ritr + 1).base()\<close> lies before the vector's \<^verbatim>\<open>begin()\<close>:
  the loop that should pop the blocks of the bad fork starts outside
  \<^verbatim>\<open>branches.first\<close> (and would run to the end of the other vector).
\<close>

lemma switch_forks_reversal_Undef:
  "switch_forks_reversal env first second b e s = Undef"
proof (cases "invalidate_rest env first b (fork_db s)")
  case None
  then show ?thesis by (simp add: switch_forks_reversal_def)
next
  case (Some r)
  obtain f ritr where r: "r = (f, ritr)" by (cases r)
  from invalidate_rest_end [OF Some [unfolded r]] have "ritr = 0" .
  with Some r show ?thesis
    by (simp add: switch_forks_reversal_def reverse_plus_def)
qed

lemma switch_forks_replay_Throw:
  "switch_forks_replay env first second b s = Throw e s' \<Longrightarrow> \<not> is_fc_exception e"
proof (induction b arbitrary: s)
  case 0
  then show ?case by simp
next
  case (Suc i)
  from Suc.prems obtain blk where d: "reverse_deref first (Suc i) = Some blk"
    by (cases "reverse_deref first (Suc i)") simp_all
  show ?case
  proof (cases "switch_forks_apply env blk s")
    case (Ret u s1)
    with Suc.prems d have "switch_forks_replay env first second i s1 = Throw e s'" by simp
    then show ?thesis by (rule Suc.IH)
  next
    case (Throw e1 s1)
    with Suc.prems d show ?thesis
      by (cases "is_fc_exception e1") (simp_all add: switch_forks_reversal_Undef)
  next
    case Undef
    with Suc.prems d show ?thesis by simp
  qed
qed

text \<open>
  C1 fails on the code. In the example the reorg pops block 1 and replays \<open>bad_head\<close>,
  whose \<^verbatim>\<open>apply_block\<close> throws. The call then neither restores the head and the stores nor
  rethrows the exception: its behaviour is undefined.
\<close>

theorem maybe_switch_forks_failed_reorg:
  "maybe_switch_forks fork_env False example_state = Undef"
proof -
  have h: "fork_db_head fork_env f = bad_head"
    "fetch_branch_from fork_env f i j = Inr ([bad_head], [example_head])"
    "mark_in_current_chain fork_env bs flag f = Inr f"
    "fork_db_get_block fork_env f 0 = Some example_genesis" for f i j bs flag
    by (simp_all add: fork_env_def example_env_def)
  have ids: "previous (header bad_head) = 0" "block_state_id bad_head = 5"
    "head example_state = example_head"
    "block_state_id example_head = 1" "previous (header example_head) = 0"
    "block_state_id example_genesis = 0"
    by (simp_all add: bad_head_def example_head_def example_state_def example_genesis_def)
  have a: "apply_block fork_env (block bad_head) False s = Throw assert_exception (abort_block s)"
    for s :: "(nat, nat) controller_impl"
    by (simp add: apply_block_def bad_head_def example_block_def)
  have "pop_block fork_env example_state
          = Ret () (example_state
                      \<lparr>unapplied_transactions := unapplied_transactions example_state,
                       head := example_genesis,
                       db := undo (db example_state),
                       token_db := rollback_to_latest_savepoint (token_db example_state)\<rparr>)"
    by (simp add: pop_block_def ids h) (simp add: example_head_def)
  then obtain s1 where p: "pop_block fork_env example_state = Ret () s1"
    and s1: "head s1 = example_genesis" by simp
  have r: "switch_forks_replay fork_env [bad_head] [example_head] (Suc 0) s1 = Undef"
    by (simp add: reverse_deref_def switch_forks_apply_def a bind_def
        switch_forks_reversal_Undef)
  have "pop_branch fork_env [example_head] example_state = Ret () s1"
    using p by (simp add: h bind_def)
  then show ?thesis
    using r s1 by (simp add: maybe_switch_forks_def Let_def h ids bind_def head_block_id_def)
qed

end
